theory Spec2Isabelle
  imports Complex_Main
begin

section \<open>The rover controller of src/app.js\<close>

text \<open>
  The class \<open>RoverController\<close> is embedded as a record of its fields and one HOL
  function per method. What a method reads from its environment is a parameter of the
  function: the value of \<open>Date.now()\<close>, the outcome of the promise returned by
  \<open>characteristic.writeValue\<close>, the outcome of the Web Bluetooth calls of \<open>connect\<close>,
  the bounding rectangle of the joystick base. What a method does to its environment is
  recorded in three fields that the class does not have: \<open>writes\<close> (every call of
  \<open>writeValue\<close>, with its argument and outcome), \<open>console\<close> (the console messages) and
  \<open>knob\<close> (the offset written into \<open>joystick.style.transform\<close>). The rest of the DOM is
  not modelled.

  A method function runs its handler to completion: the continuation of an \<open>await\<close> is
  part of the call that started it. The code does not enforce this for \<open>sendCommand\<close>,
  which resumes after \<open>await writeValue\<close> whenever the write settles, with no second look
  at the connection. \<open>sendCommand_resume\<close> is that continuation on its own, and the event
  \<open>WriteSettled\<close> of \<open>step\<close> runs it between any two handlers.

  Pixel coordinates and the slider's speed are double-precision numbers: real numbers,
  with the result of every arithmetic operation rounded by \<open>fl\<close>. The functions \<open>Math.sqrt\<close>, \<open>Math.atan2\<close>,
  \<open>Math.cos\<close> and \<open>Math.sin\<close>, whose results the language leaves to the implementation,
  are read from the environment. Infinities, NaN and the sign of zero are not modelled.
  Timestamps, percentages and counters are integers. Strings are lists of bytes, so that
  \<open>TextEncoder.encode\<close> of an ASCII command is the command itself.
\<close>

subsection \<open>Double-precision arithmetic\<close>

text \<open>Rounding to the nearest integer, a tie going to the even one.\<close>

definition rne :: "real \<Rightarrow> int" where
  "rne x =
     (let f = \<lfloor>x\<rfloor>
      in if x - of_int f < 1 / 2 then f
         else if x - of_int f > 1 / 2 then f + 1
         else if even f then f else f + 1)"

text \<open>The spacing of the doubles around \<open>x\<close>: 52 binary places below the leading bit of
  \<open>x\<close>, and \<open>2 powr - 1074\<close> in the subnormal range.\<close>

definition ulp :: "real \<Rightarrow> real" where
  "ulp x = 2 powr (of_int (max \<lfloor>log 2 \<bar>x\<bar>\<rfloor> (- 1022)) - 52)"

text \<open>The double nearest to a real number, a tie going to the even significand. Every
  arithmetic operator of the code is \<open>fl\<close> of the exact result.\<close>

definition fl :: "real \<Rightarrow> real" where
  "fl x = (if x = 0 then 0 else of_int (rne (x / ulp x)) * ulp x)"

text \<open>\<open>Math.PI\<close>, the double nearest to \<open>\<pi>\<close> (3.141592653589793).\<close>

definition Math_PI :: real where
  "Math_PI = 884279719003555 / 2 ^ 48"

text \<open>The functions of \<open>Math\<close> that \<open>handleJoystickMove\<close> calls, as the engine in use
  implements them.\<close>

record js_math =
  Math_sqrt :: "real \<Rightarrow> real"
  Math_atan2 :: "real \<Rightarrow> real \<Rightarrow> real"
  Math_cos :: "real \<Rightarrow> real"
  Math_sin :: "real \<Rightarrow> real"

subsection \<open>Data\<close>

datatype write_result = WriteOk | WriteRejected

datatype js_error = WriteFailed

datatype console_msg =
    WarnNotConnected
  | LogSent string nat
  | ErrorSendFailed js_error
  | LogDeviceDisconnected
  | ErrorConnectionFailed
  | LogConnected

text \<open>A \<open>BluetoothDevice\<close>: \<open>device.gatt.connected\<close> and the number of listeners that
  \<open>connect\<close> has registered for \<open>gattserverdisconnected\<close>.\<close>

record bt_device =
  gatt_connected :: bool
  disconnect_listeners :: nat

record dom_rect =
  rect_left :: real
  rect_top :: real
  rect_width :: real
  rect_height :: real

record rover =
  device :: "bt_device option"
  characteristic :: "nat option"
  isConnected :: bool
  currentSpeed :: int
  currentDirection :: string
  commandCount :: nat
  connectionStartTime :: "int option"
  joystickActive :: bool
  joystickCenter :: "real \<times> real"
  maxRadius :: real
  lastCommand :: string
  lastCommandTime :: int
  commandDelay :: int
  knob :: "real \<times> real"
  writes :: "(string \<times> write_result) list"
  console :: "console_msg list"

text \<open>The field initialisers of the constructor (lines 11 to 29).\<close>

definition constructor_fields :: rover where
  "constructor_fields =
     \<lparr> device = None, characteristic = None, isConnected = False,
       currentSpeed = 50, currentDirection = ''STOP'', commandCount = 0,
       connectionStartTime = None,
       joystickActive = False, joystickCenter = (0, 0), maxRadius = 80,
       lastCommand = '''', lastCommandTime = 0, commandDelay = 100,
       knob = (0, 0), writes = [], console = [] \<rparr>"

text \<open>\<open>updateCenter\<close> of \<open>setupJoystick\<close> (lines 97 to 104).\<close>

definition updateCenter :: "dom_rect \<Rightarrow> rover \<Rightarrow> rover" where
  "updateCenter rect s =
     s\<lparr> joystickCenter := (fl (rect_left rect + fl (rect_width rect / 2)),
                            fl (rect_top rect + fl (rect_height rect / 2))),
        maxRadius := fl (fl (rect_width rect / 2) - 50) \<rparr>"

text \<open>\<open>new RoverController()\<close>: the initialisers, then \<open>init\<close>, whose only effect on the
  fields is the call of \<open>updateCenter\<close> in \<open>setupJoystick\<close>.\<close>

definition newRoverController :: "dom_rect \<Rightarrow> rover" where
  "newRoverController rect = updateCenter rect constructor_fields"

subsection \<open>Sending a command\<close>

text \<open>\<open>updateDirection\<close> (lines 297 to 310): \<open>dirMap[cmd] || dirMap['S']\<close>. Keys that
  \<open>dirMap\<close> would inherit from \<open>Object.prototype\<close> are not commands of the rover and are
  not modelled.\<close>

definition dirMap :: "string \<rightharpoonup> string" where
  "dirMap = [''F'' \<mapsto> ''Forward'', ''B'' \<mapsto> ''Backward'', ''L'' \<mapsto> ''Left'',
             ''R'' \<mapsto> ''Right'', ''S'' \<mapsto> ''Stopped'']"

definition updateDirection :: "string \<Rightarrow> rover \<Rightarrow> rover" where
  "updateDirection cmd s =
     (let dir = (case dirMap cmd of Some d \<Rightarrow> d | None \<Rightarrow> ''Stopped'')
      in s\<lparr> currentDirection := dir \<rparr>)"

text \<open>\<open>characteristic.writeValue(bytes)\<close>: the call is recorded; a rejected promise is
  an exception at the \<open>await\<close>, carrying the state at that point.\<close>

definition writeValue :: "write_result \<Rightarrow> string \<Rightarrow> rover \<Rightarrow> (js_error \<times> rover) + rover" where
  "writeValue w bytes s =
     (let s' = s\<lparr> writes := writes s @ [(bytes, w)] \<rparr>
      in case w of WriteOk \<Rightarrow> Inr s' | WriteRejected \<Rightarrow> Inl (WriteFailed, s'))"

text \<open>The \<open>try\<close> block of \<open>sendCommand\<close> (lines 270 to 283).\<close>

definition sendCommand_try :: "write_result \<Rightarrow> string \<Rightarrow> rover \<Rightarrow> (js_error \<times> rover) + rover" where
  "sendCommand_try w cmd s =
     (case writeValue w cmd s of
        Inl e \<Rightarrow> Inl e
      | Inr s1 \<Rightarrow>
          (let s2 = s1\<lparr> commandCount := commandCount s1 + 1 \<rparr>;
               s3 = s2\<lparr> console := console s2 @ [LogSent cmd (commandCount s2)] \<rparr>
           in Inr (updateDirection cmd s3)))"

text \<open>\<open>sendCommand\<close> (lines 263 to 288): the guard, the \<open>try\<close> block and its \<open>catch\<close>.\<close>

definition sendCommand :: "write_result \<Rightarrow> string \<Rightarrow> rover \<Rightarrow> rover" where
  "sendCommand w cmd s =
     (if \<not> isConnected s \<or> characteristic s = None
      then s\<lparr> console := console s @ [WarnNotConnected] \<rparr>
      else (case sendCommand_try w cmd s of
              Inr s' \<Rightarrow> s'
            | Inl (e, s') \<Rightarrow> s'\<lparr> console := console s' @ [ErrorSendFailed e] \<rparr>))"

text \<open>What \<open>sendCommand\<close> does once the promise of \<open>writeValue\<close> has settled: the rest
  of the \<open>try\<close> block (lines 273 to 283) or the \<open>catch\<close> block (lines 285 to 287).\<close>

definition sendCommand_resume :: "write_result \<Rightarrow> string \<Rightarrow> rover \<Rightarrow> rover" where
  "sendCommand_resume w cmd s =
     (case w of
        WriteOk \<Rightarrow>
          (let s2 = s\<lparr> commandCount := commandCount s + 1 \<rparr>;
               s3 = s2\<lparr> console := console s2 @ [LogSent cmd (commandCount s2)] \<rparr>
           in updateDirection cmd s3)
      | WriteRejected \<Rightarrow> s\<lparr> console := console s @ [ErrorSendFailed WriteFailed] \<rparr>)"

subsection \<open>The throttler\<close>

text \<open>The condition of \<open>sendCommandThrottled\<close> (line 193).\<close>

definition throttleAccepts :: "string \<Rightarrow> int \<Rightarrow> rover \<Rightarrow> bool" where
  "throttleAccepts cmd now s \<longleftrightarrow>
     cmd \<noteq> lastCommand s \<or> (now - lastCommandTime s) > commandDelay s"

text \<open>\<open>sendCommandThrottled\<close> (lines 191 to 198); \<open>now\<close> is the value of \<open>Date.now()\<close>.\<close>

definition sendCommandThrottled :: "write_result \<Rightarrow> int \<Rightarrow> string \<Rightarrow> rover \<Rightarrow> rover" where
  "sendCommandThrottled w now cmd s =
     (if throttleAccepts cmd now s
      then (sendCommand w cmd s)\<lparr> lastCommand := cmd, lastCommandTime := now \<rparr>
      else s)"

subsection \<open>Buttons and the speed slider\<close>

text \<open>\<open>Math.round\<close>: the nearest integer, a tie going up.\<close>

definition Math_round :: "real \<Rightarrow> int" where
  "Math_round x = \<lfloor>x + 1 / 2\<rfloor>"

text \<open>The decimal digits that a template literal prints for an integer.\<close>

definition digit_char :: "nat \<Rightarrow> char" where
  "digit_char d = ''0123456789'' ! d"

fun decimal :: "nat \<Rightarrow> string" where
  "decimal n = (if n < 10 then [digit_char n] else decimal (n div 10) @ [digit_char (n mod 10)])"

declare decimal.simps [simp del]

definition Number_toString :: "int \<Rightarrow> string" where
  "Number_toString i = (if i < 0 then ''-'' @ decimal (nat (- i)) else decimal (nat i))"

text \<open>The two listeners of an arrow button that send (lines 61 to 65 and 70 to 72):
  \<open>cmd\<close> is \<open>btn.dataset.cmd\<close>.\<close>

definition arrowButton :: "write_result \<Rightarrow> string \<Rightarrow> rover \<Rightarrow> rover" where
  "arrowButton w cmd s = sendCommand w cmd s"

text \<open>The \<open>input\<close> listener of the speed slider (lines 76 to 84): \<open>p\<close> is
  \<open>parseInt(e.target.value)\<close>. Line 80 divides and multiplies in doubles before it rounds
  to an integer.\<close>

definition speedByte :: "int \<Rightarrow> int" where
  "speedByte p = Math_round (fl (fl (real_of_int p / 100) * 255))"

definition speedSliderInput :: "write_result \<Rightarrow> int \<Rightarrow> rover \<Rightarrow> rover" where
  "speedSliderInput w p s =
     (let s1 = s\<lparr> currentSpeed := p \<rparr>;
          speed = speedByte (currentSpeed s1)
      in sendCommand w (''SPEED:'' @ Number_toString speed) s1)"

text \<open>\<open>emergencyStop\<close> (lines 290 to 295).\<close>

definition emergencyStop :: "write_result \<Rightarrow> rover \<Rightarrow> rover" where
  "emergencyStop w s = sendCommand w ''S'' s"

subsection \<open>The joystick\<close>

text \<open>Lines 152 to 162 of \<open>handleJoystickMove\<close>: the pair \<open>(newX, newY)\<close>.\<close>

definition clampToRadius :: "js_math \<Rightarrow> real \<Rightarrow> real \<Rightarrow> real \<Rightarrow> real \<times> real" where
  "clampToRadius m maxR dx dy =
     (let distance = Math_sqrt m (fl (fl (dx * dx) + fl (dy * dy)))
      in if distance > maxR
         then (let angle = Math_atan2 m dy dx
               in (fl (Math_cos m angle * maxR), fl (Math_sin m angle * maxR)))
         else (dx, dy))"

text \<open>Lines 169 to 183: the command handed to \<open>sendCommandThrottled\<close>.\<close>

definition joystickCommand :: "real \<Rightarrow> real \<Rightarrow> string" where
  "joystickCommand distance angle =
     (let threshold = 30
      in if distance < threshold then ''S''
         else if angle \<ge> - 45 \<and> angle < 45 then ''R''
         else if angle \<ge> 45 \<and> angle < 135 then ''B''
         else if angle \<ge> - 135 \<and> angle < - 45 then ''F''
         else ''L'')"

text \<open>Lines 152 to 183 together, for the displacement \<open>(dx, dy)\<close>.\<close>

definition joystickMoveCommand :: "js_math \<Rightarrow> real \<Rightarrow> real \<Rightarrow> real \<Rightarrow> string" where
  "joystickMoveCommand m maxR dx dy =
     (let distance = Math_sqrt m (fl (fl (dx * dx) + fl (dy * dy)));
          (newX, newY) = clampToRadius m maxR dx dy;
          angle = fl (Math_atan2 m newY newX * fl (180 / Math_PI))
      in joystickCommand distance angle)"

text \<open>\<open>handleJoystickMove\<close> (lines 149 to 184).\<close>

definition handleJoystickMove ::
    "js_math \<Rightarrow> write_result \<Rightarrow> int \<Rightarrow> real \<Rightarrow> real \<Rightarrow> rover \<Rightarrow> rover" where
  "handleJoystickMove m w now x y s =
     (let dx = fl (x - fst (joystickCenter s));
          dy = fl (y - snd (joystickCenter s));
          s1 = s\<lparr> knob := clampToRadius m (maxRadius s) dx dy \<rparr>
      in sendCommandThrottled w now (joystickMoveCommand m (maxRadius s) dx dy) s1)"

text \<open>\<open>resetJoystick\<close> (lines 186 to 189).\<close>

definition resetJoystick :: "write_result \<Rightarrow> rover \<Rightarrow> rover" where
  "resetJoystick w s = sendCommand w ''S'' (s\<lparr> knob := (0, 0) \<rparr>)"

subsection \<open>Connecting and disconnecting\<close>

text \<open>\<open>onDisconnected\<close> (lines 328 to 348).\<close>

definition onDisconnected :: "rover \<Rightarrow> rover" where
  "onDisconnected s =
     (let s1 = s\<lparr> isConnected := False, characteristic := None, device := None \<rparr>;
          s2 = updateDirection ''S'' s1
      in s2\<lparr> commandCount := 0 \<rparr>)"

text \<open>The listener for \<open>gattserverdisconnected\<close> that \<open>connect\<close> registers
  (lines 237 to 240).\<close>

definition gattserverdisconnected :: "rover \<Rightarrow> rover" where
  "gattserverdisconnected s = onDisconnected (s\<lparr> console := console s @ [LogDeviceDisconnected] \<rparr>)"

text \<open>The device drops its link and fires \<open>gattserverdisconnected\<close> at every registered
  listener. This is what \<open>device.gatt.disconnect()\<close> does to a connected device, and what
  the transport does when the link is lost.\<close>

definition dropLink :: "bt_device \<Rightarrow> rover \<Rightarrow> rover" where
  "dropLink d s =
     (gattserverdisconnected ^^ disconnect_listeners d)
       (s\<lparr> device := Some (d\<lparr> gatt_connected := False \<rparr>) \<rparr>)"

text \<open>\<open>disconnect\<close> (lines 255 to 261).\<close>

definition disconnect :: "write_result \<Rightarrow> rover \<Rightarrow> rover" where
  "disconnect w s =
     (case device s of
        Some d \<Rightarrow>
          if gatt_connected d
          then onDisconnected (dropLink d (sendCommand w ''S'' s))
          else onDisconnected s
      | None \<Rightarrow> onDisconnected s)"

text \<open>Unsolicited loss of the link of the current device.\<close>

definition linkLost :: "rover \<Rightarrow> rover" where
  "linkLost s =
     (case device s of
        Some d \<Rightarrow> if gatt_connected d then dropLink d s else s
      | None \<Rightarrow> s)"

text \<open>\<open>onConnected\<close> (lines 312 to 326) changes the page and starts the display timer; it
  assigns no field.\<close>

definition onConnected :: "rover \<Rightarrow> rover" where
  "onConnected s = s"

text \<open>How far \<open>connect\<close> gets: each \<open>await\<close> of lines 206 to 230 may reject; \<open>d\<close> is the
  device that \<open>requestDevice\<close> returned and \<open>c\<close> the characteristic.\<close>

datatype connect_outcome =
    RequestDeviceRejected
  | GattConnectRejected bt_device
  | GetPrimaryServiceRejected bt_device
  | GetCharacteristicRejected bt_device
  | StartNotificationsRejected bt_device nat
  | ConnectResolved bt_device nat

text \<open>\<open>connect\<close> (lines 200 to 253); \<open>now\<close> is the value of \<open>Date.now()\<close> at line 243.\<close>

definition connect :: "connect_outcome \<Rightarrow> int \<Rightarrow> rover \<Rightarrow> rover" where
  "connect oc now s =
     (let failed = (\<lambda>s'. s'\<lparr> console := console s' @ [ErrorConnectionFailed] \<rparr>)
      in case oc of
        RequestDeviceRejected \<Rightarrow> failed s
      | GattConnectRejected d \<Rightarrow> failed (s\<lparr> device := Some d \<rparr>)
      | GetPrimaryServiceRejected d \<Rightarrow>
          failed (s\<lparr> device := Some (d\<lparr> gatt_connected := True \<rparr>) \<rparr>)
      | GetCharacteristicRejected d \<Rightarrow>
          failed (s\<lparr> device := Some (d\<lparr> gatt_connected := True \<rparr>) \<rparr>)
      | StartNotificationsRejected d c \<Rightarrow>
          failed (s\<lparr> device := Some (d\<lparr> gatt_connected := True \<rparr>), characteristic := Some c \<rparr>)
      | ConnectResolved d c \<Rightarrow>
          (let s1 = s\<lparr> device := Some (d\<lparr> gatt_connected := True,
                                           disconnect_listeners := disconnect_listeners d + 1 \<rparr>),
                        characteristic := Some c \<rparr>;
               s2 = s1\<lparr> isConnected := True, connectionStartTime := Some now \<rparr>;
               s3 = onConnected s2
           in s3\<lparr> console := console s3 @ [LogConnected] \<rparr>))"

subsection \<open>Events\<close>

text \<open>The events that the listeners of \<open>setupEventListeners\<close>, \<open>setupJoystick\<close> and
  \<open>connect\<close> react to, each with what its handler reads from the environment. The last
  one is the promise of an earlier \<open>writeValue\<close> settling only now, after other handlers
  have run: \<open>sendCommand\<close> resumes for the command it was called with.\<close>

datatype event =
    ClickConnect connect_outcome int
  | ClickDisconnect write_result
  | ArrowButton string write_result
  | SpeedInput int write_result
  | ClickEmergencyStop write_result
  | Resize dom_rect
  | JoystickStart dom_rect
  | JoystickMove js_math real real int write_result
  | JoystickTouchEnd write_result
  | MouseUp write_result
  | LinkLost
  | WriteSettled write_result string

fun step :: "event \<Rightarrow> rover \<Rightarrow> rover" where
  "step (ClickConnect oc now) s = connect oc now s"
| "step (ClickDisconnect w) s = disconnect w s"
| "step (ArrowButton cmd w) s = arrowButton w cmd s"
| "step (SpeedInput p w) s = speedSliderInput w p s"
| "step (ClickEmergencyStop w) s = emergencyStop w s"
| "step (Resize rect) s = updateCenter rect s"
| "step (JoystickStart rect) s = updateCenter rect (s\<lparr> joystickActive := True \<rparr>)"
| "step (JoystickMove m x y now w) s =
     (if \<not> joystickActive s then s else handleJoystickMove m w now x y s)"
| "step (JoystickTouchEnd w) s = resetJoystick w (s\<lparr> joystickActive := False \<rparr>)"
| "step (MouseUp w) s =
     (if joystickActive s then resetJoystick w (s\<lparr> joystickActive := False \<rparr>) else s)"
| "step LinkLost s = linkLost s"
| "step (WriteSettled w cmd) s = sendCommand_resume w cmd s"

text \<open>The states of a controller after any sequence of events. A write may settle
  late whether or not one is pending, so that the set contains every state the code can
  be in, and more.\<close>

inductive reachable :: "rover \<Rightarrow> bool" where
  reachable_new: "reachable (newRoverController rect)"
| reachable_step: "reachable s \<Longrightarrow> reachable (step e s)"

text \<open>The link is usable for sending: the guard of \<open>sendCommand\<close> passes.\<close>

definition Active :: "rover \<Rightarrow> bool" where
  "Active s \<longleftrightarrow> isConnected s \<and> characteristic s \<noteq> None"

subsection \<open>Derived notions and example states\<close>

text \<open>The throttle state: the last recorded command and the time it was recorded.\<close>

definition throttleState :: "rover \<Rightarrow> string \<times> int" where
  "throttleState s = (lastCommand s, lastCommandTime s)"

text \<open>The distance and the angle in degrees as lines 152 and 168 compute them.\<close>

definition distance :: "js_math \<Rightarrow> real \<Rightarrow> real \<Rightarrow> real" where
  "distance m dx dy = Math_sqrt m (fl (fl (dx * dx) + fl (dy * dy)))"


text \<open>The exact two-argument arctangent: the angle of the point \<open>(x, y)\<close> in \<open>(-\<pi>, \<pi>]\<close>,
  and 0 at the origin.\<close>

definition atan2 :: "real \<Rightarrow> real \<Rightarrow> real" where
  "atan2 y x =
     (if 0 < x then arctan (y / x)
      else if x < 0 then (if 0 \<le> y then arctan (y / x) + pi else arctan (y / x) - pi)
      else if 0 < y then pi / 2
      else if y < 0 then - (pi / 2)
      else 0)"

text \<open>
  A \<open>Math\<close> library for the examples: every function returns the double nearest to the
  exact value. For the displacement \<open>(100, 100)\<close> its values are proved below:
  \<^item> \<open>Math.sqrt(20000)\<close> is 141.4213562373095;
  \<^item> \<open>Math.atan2(100, 100)\<close> is 0.7853981633974483;
  \<^item> \<open>Math.cos(0.7853981633974483)\<close> is 0.7071067811865476;
  \<^item> \<open>Math.sin(0.7853981633974483)\<close> is 0.7071067811865475;
  \<^item> \<open>Math.atan2(70.71067811865474, 70.71067811865476)\<close> is 0.7853981633974482.
\<close>

definition engineMath :: js_math where
  "engineMath =
     \<lparr> Math_sqrt = (\<lambda>x. fl (sqrt x)),
       Math_atan2 = (\<lambda>y x. fl (atan2 y x)),
       Math_cos = (\<lambda>x. fl (cos x)),
       Math_sin = (\<lambda>x. fl (sin x)) \<rparr>"

text \<open>The partial sums of the arctangent series, and a polynomial in nested form: what
  encloses the exact values of the library functions between rational numbers.\<close>

definition arctan_sum :: "real \<Rightarrow> nat \<Rightarrow> real" where
  "arctan_sum x n = (\<Sum>k<n. (- 1) ^ k * (1 / real (k * 2 + 1) * x ^ (k * 2 + 1)))"

fun horner :: "real \<Rightarrow> real list \<Rightarrow> real" where
  "horner y [] = 1"
| "horner y (d # ds) = 1 - y * horner y ds / d"

declare horner.simps [simp del]

text \<open>Two concrete states: a fresh controller whose joystick base is a 260 pixel square
  at the origin, and the same controller after a \<open>connect\<close> that succeeded at time 1000.\<close>

definition exampleRect :: dom_rect where
  "exampleRect = \<lparr> rect_left = 0, rect_top = 0, rect_width = 260, rect_height = 260 \<rparr>"

definition exampleDevice :: bt_device where
  "exampleDevice = \<lparr> gatt_connected = False, disconnect_listeners = 0 \<rparr>"

definition exampleIdle :: rover where
  "exampleIdle = newRoverController exampleRect"

definition exampleActive :: rover where
  "exampleActive = step (ClickConnect (ConnectResolved exampleDevice 7) 1000) exampleIdle"


text \<open>The tolerance of one coordinate of a clamped vector: two rounding errors of relative
  size \<open>2 powr - 52\<close>, and the spacing of the smallest doubles.\<close>

definition clampTolerance :: "real \<Rightarrow> real" where
  "clampTolerance maxR = \<bar>maxR\<bar> * 2 powr (- 51) + 2 powr (- 1075)"



section \<open>Lemmas\<close>

subsection \<open>Rounding to the nearest double\<close>

lemma rne_error: "\<bar>of_int (rne x) - x\<bar> \<le> 1 / 2"
  unfolding rne_def Let_def by (auto; linarith)

lemma rne_of_int: "rne (of_int k) = k"
  by (simp add: rne_def)

lemma ulp_pos: "0 < ulp x"
  by (simp add: ulp_def)

lemma floor_log2_eq:
  assumes "0 < x" "2 powr (of_int e) \<le> x" "x < 2 powr (of_int e + 1)"
  shows "\<lfloor>log 2 x\<rfloor> = e"
proof -
  have "of_int e \<le> log 2 x" using assms by (simp add: le_log_iff)
  moreover have "log 2 x < of_int e + 1" using assms by (simp add: log_less_iff)
  ultimately show ?thesis by linarith
qed

lemma ulp_bound: "x \<noteq> 0 \<Longrightarrow> ulp x \<le> 2 powr (- 52) * \<bar>x\<bar> \<or> ulp x = 2 powr (- 1074)"
proof -
  assume nz: "x \<noteq> 0"
  let ?e = "\<lfloor>log 2 \<bar>x\<bar>\<rfloor>"
  show ?thesis
  proof (cases "- 1022 \<le> ?e")
    case True
    then have "max ?e (- 1022) = ?e" by simp
    then have u: "ulp x = 2 powr (of_int ?e - 52)" by (simp only: ulp_def)
    have p: "0 < \<bar>x\<bar>" using nz by simp
    have "of_int ?e \<le> log 2 \<bar>x\<bar>" by simp
    with le_log_iff [of 2 "\<bar>x\<bar>" "of_int ?e"] p have "2 powr (of_int ?e) \<le> \<bar>x\<bar>" by simp
    then have "2 powr (of_int ?e) * 2 powr (- 52) \<le> \<bar>x\<bar> * 2 powr (- 52)"
      by (intro mult_right_mono) simp_all
    then show ?thesis by (simp add: u powr_diff powr_minus field_simps)
  next
    case False
    then have "max ?e (- 1022) = - 1022" by simp
    then have "ulp x = 2 powr (- 1074)" by (simp only: ulp_def) simp
    then show ?thesis by simp
  qed
qed

lemma fl_error_ulp: "\<bar>fl x - x\<bar> \<le> ulp x / 2"
proof (cases "x = 0")
  case True
  then show ?thesis using ulp_pos [of x] by (simp add: fl_def)
next
  case False
  have "fl x - x = (of_int (rne (x / ulp x)) - x / ulp x) * ulp x"
    using False ulp_pos [of x] by (simp add: fl_def left_diff_distrib)
  then have "\<bar>fl x - x\<bar> = \<bar>of_int (rne (x / ulp x)) - x / ulp x\<bar> * \<bar>ulp x\<bar>"
    by (simp only: abs_mult)
  then have "\<bar>fl x - x\<bar> = \<bar>of_int (rne (x / ulp x)) - x / ulp x\<bar> * ulp x"
    using ulp_pos [of x] by simp
  also have "\<dots> \<le> 1 / 2 * ulp x"
    using rne_error [of "x / ulp x"] ulp_pos [of x] by (intro mult_right_mono) simp_all
  finally show ?thesis by simp
qed

lemma fl_error: "\<bar>fl x - x\<bar> \<le> 2 powr (- 53) * \<bar>x\<bar> + 2 powr (- 1075)"
proof (cases "x = 0")
  case True
  then show ?thesis by (simp add: fl_def)
next
  case False
  have h: "(2::real) powr (- 53) = 2 powr (- 52) / 2" "(2::real) powr (- 1075) = 2 powr (- 1074) / 2"
    by (simp_all add: powr_minus field_simps)
  from ulp_bound [OF False] show ?thesis
  proof (elim disjE)
    assume "ulp x \<le> 2 powr (- 52) * \<bar>x\<bar>"
    with fl_error_ulp [of x] have "\<bar>fl x - x\<bar> \<le> 2 powr (- 53) * \<bar>x\<bar>" by (simp add: h)
    then show ?thesis by (smt (verit) powr_gt_zero)
  next
    assume "ulp x = 2 powr (- 1074)"
    with fl_error_ulp [of x] have "\<bar>fl x - x\<bar> \<le> 2 powr (- 1075)" by (simp add: h)
    moreover have "0 \<le> 2 powr (- 53) * \<bar>x\<bar>" by simp
    ultimately show ?thesis by linarith
  qed
qed


lemma ulp_eqI:
  assumes "- 1022 \<le> e" "2 powr (of_int e) \<le> \<bar>x\<bar>" "\<bar>x\<bar> < 2 powr (of_int e + 1)"
  shows "ulp x = 2 powr (of_int e - 52)"
proof -
  have "0 < \<bar>x\<bar>" using assms(2) by (smt (verit) powr_gt_zero)
  then have "\<lfloor>log 2 \<bar>x\<bar>\<rfloor> = e" using assms by (intro floor_log2_eq) simp_all
  then show ?thesis using assms(1) by (simp add: ulp_def)
qed

lemma fl_eqI:
  assumes "- 1022 \<le> e" "2 powr (of_int e) \<le> \<bar>x\<bar>" "\<bar>x\<bar> < 2 powr (of_int e + 1)"
    and "u = 2 powr (of_int e - 52)" "rne (x / u) = k"
  shows "fl x = of_int k * u"
proof -
  have "x \<noteq> 0" using assms(2) by (smt (verit) powr_gt_zero)
  moreover have "ulp x = u" using ulp_eqI [OF assms(1-3)] assms(4) by simp
  ultimately show ?thesis using assms(5) by (simp add: fl_def)
qed

lemma fl_of_int: "\<bar>k\<bar> < 2 ^ 53 \<Longrightarrow> fl (of_int k) = of_int k"
proof (cases "k = 0")
  case True
  then show ?thesis by (simp add: fl_def)
next
  case False
  assume b: "\<bar>k\<bar> < 2 ^ 53"
  let ?x = "real_of_int k"
  let ?e = "\<lfloor>log 2 \<bar>?x\<bar>\<rfloor>"
  have x1: "1 \<le> \<bar>?x\<bar>" using False by (simp flip: of_int_abs)
  have x2: "\<bar>?x\<bar> < 2 ^ 53" using b by (simp flip: of_int_abs add: of_int_less_numeral_power_cancel_iff)
  have "0 \<le> log 2 \<bar>?x\<bar>" using x1 by simp
  then have e0: "0 \<le> ?e" by simp
  have "log 2 \<bar>?x\<bar> < 53" using x1 x2 by (simp add: log_less_iff)
  then have e1: "?e \<le> 52" by linarith
  define n where "n = nat (52 - ?e)"
  have u: "ulp ?x = 1 / 2 ^ n"
  proof -
    have "max ?e (- 1022) = ?e" using e0 by simp
    then have "ulp ?x = 2 powr (of_int ?e - 52)" by (simp only: ulp_def)
    also have "of_int ?e - 52 = - real n" using e1 by (simp add: n_def)
    also have "2 powr (- real n) = 1 / 2 ^ n" by (simp add: powr_minus_divide powr_realpow)
    finally show ?thesis .
  qed
  have "?x / ulp ?x = of_int (k * 2 ^ n)" by (simp add: u)
  then have "rne (?x / ulp ?x) = k * 2 ^ n" by (simp only: rne_of_int)
  then have "fl ?x = of_int (k * 2 ^ n) * (1 / 2 ^ n)" using False by (simp add: fl_def u)
  then show ?thesis by simp
qed

lemma fl_values:
  "fl 1 = 1" "fl 60 = 60" "fl 80 = 80" "fl 100 = 100" "fl 130 = 130" "fl 150 = 150"
  "fl 3600 = 3600" "fl 10000 = 10000" "fl 20000 = 20000"
  using fl_of_int [of 1] fl_of_int [of 60] fl_of_int [of 80] fl_of_int [of 100]
    fl_of_int [of 130] fl_of_int [of 150] fl_of_int [of 3600] fl_of_int [of 10000]
    fl_of_int [of 20000]
  by simp_all

lemma fl_zero: "fl 0 = 0" by (simp add: fl_def)

lemma fl_cos_times_100: "fl (6369051672525773 / 2 ^ 53 * 100) = 621977702395095 / 2 ^ 43"
proof -
  have "fl (6369051672525773 / 2 ^ 53 * 100) = of_int 4975821619160760 * (1 / 2 ^ 46)"
  proof (rule fl_eqI [where e = 6])
    show "rne (6369051672525773 / 2 ^ 53 * 100 / (1 / 2 ^ 46)) = 4975821619160760" by (simp add: rne_def)
  qed (simp_all add: powr_minus_divide)
  then show ?thesis by simp
qed

lemma fl_sin_times_100: "fl (1592262918131443 / 2 ^ 51 * 100) = 4975821619160759 / 2 ^ 46"
proof -
  have "fl (1592262918131443 / 2 ^ 51 * 100) = of_int 4975821619160759 * (1 / 2 ^ 46)"
  proof (rule fl_eqI [where e = 6])
    show "rne (1592262918131443 / 2 ^ 51 * 100 / (1 / 2 ^ 46)) = 4975821619160759" by (simp add: rne_def)
  qed (simp_all add: powr_minus_divide)
  then show ?thesis by simp
qed




subsection \<open>The values of a correctly rounding library\<close>

text \<open>A real number within one half of an integer, in units of the spacing, rounds to that
  integer.\<close>

lemma rne_eqI:
  assumes "of_int k - 1 / 2 < x" "x < of_int k + 1 / 2"
  shows "rne x = k"
proof (cases "of_int k \<le> x")
  case True
  with assms have "\<lfloor>x\<rfloor> = k" by linarith
  with assms show ?thesis by (simp add: rne_def Let_def)
next
  case False
  with assms have f: "\<lfloor>x\<rfloor> = k - 1" by linarith
  with assms have "x - of_int \<lfloor>x\<rfloor> > 1 / 2" by simp
  with f show ?thesis by (simp add: rne_def Let_def)
qed

lemma sqrt_20000_rounded: "fl (sqrt 20000) = 621977702395095 / 2 ^ 42"
proof -
  have l: "(4975821619160760 - 1 / 2) * (1 / 2 ^ 45) < sqrt 20000"
    by (rule real_less_rsqrt) (simp add: power2_eq_square)
  have u: "sqrt 20000 < (4975821619160760 + 1 / 2) * (1 / 2 ^ 45)"
    by (rule real_less_lsqrt) (simp_all add: power2_eq_square)
  have "fl (sqrt 20000) = of_int 4975821619160760 * (1 / 2 ^ 45)"
  proof (rule fl_eqI [where e = 7])
    show "rne (sqrt 20000 / (1 / 2 ^ 45)) = 4975821619160760"
      using l u by (intro rne_eqI) (simp_all add: field_simps)
    have "128 < sqrt 20000" by (rule real_less_rsqrt) simp
    then show "2 powr real_of_int 7 \<le> \<bar>sqrt 20000\<bar>" by simp
    have "sqrt 20000 < 256" by (rule real_less_lsqrt) simp_all
    then show "\<bar>sqrt 20000\<bar> < 2 powr (real_of_int 7 + 1)" by simp
  qed (simp_all add: powr_minus_divide)
  then show ?thesis by simp
qed

text \<open>The arctangent lies between consecutive partial sums of its series.\<close>

lemma arctan_enclosure:
  assumes "0 \<le> x" "x \<le> 1"
  shows "arctan_sum x (2 * n) \<le> arctan x" "arctan x \<le> arctan_sum x (2 * n + 1)"
proof -
  let ?a = "\<lambda>k. 1 / real (k * 2 + 1) * x ^ (k * 2 + 1)"
  have ax: "\<bar>x\<bar> \<le> 1" using assms by simp
  have z: "?a \<longlonglongrightarrow> 0" by (rule zeroseq_arctan_series [OF ax])
  have p: "\<And>k. 0 \<le> ?a k" using assms by simp
  have m: "\<And>k. ?a (Suc k) \<le> ?a k"
  proof -
    fix k
    have "x ^ (Suc k * 2 + 1) \<le> x ^ (k * 2 + 1)"
      using assms by (intro power_decreasing) simp_all
    moreover have "1 / real (Suc k * 2 + 1) \<le> 1 / real (k * 2 + 1)"
      by (intro divide_left_mono) simp_all
    ultimately show "?a (Suc k) \<le> ?a k"
      using assms by (intro mult_mono) simp_all
  qed
  have s: "arctan x = (\<Sum>k. (- 1) ^ k * ?a k)" by (rule arctan_series [OF ax])
  show "arctan_sum x (2 * n) \<le> arctan x"
    unfolding s arctan_sum_def by (rule summable_Leibniz'(2) [OF z p m])
  show "arctan x \<le> arctan_sum x (2 * n + 1)"
    unfolding s arctan_sum_def by (rule summable_Leibniz'(4) [OF z p m])
qed

lemma arctan_sum_Suc:
  "arctan_sum x (Suc n) = arctan_sum x n + (- 1) ^ n * (1 / real (n * 2 + 1) * x ^ (n * 2 + 1))"
  by (simp add: arctan_sum_def)

lemma arctan_sum_0: "arctan_sum x 0 = 0"
  by (simp add: arctan_sum_def)

text \<open>The cosine and the sine lie within the next term of their partial sums.\<close>

lemma Maclaurin_cos_bound: "\<bar>cos x - (\<Sum>m<n. cos_coeff m * x ^ m)\<bar> \<le> \<bar>x\<bar> ^ n / fact n"
proof -
  from Maclaurin_cos_expansion [of x n] obtain t where
    t: "cos x = (\<Sum>m<n. cos_coeff m * x ^ m) + (cos (t + 1 / 2 * real n * pi) / fact n) * x ^ n"
    by blast
  then have "\<bar>cos x - (\<Sum>m<n. cos_coeff m * x ^ m)\<bar>
      = \<bar>cos (t + 1 / 2 * real n * pi)\<bar> * (\<bar>x\<bar> ^ n / fact n)"
    by (simp add: abs_mult power_abs)
  also have "\<dots> \<le> 1 * (\<bar>x\<bar> ^ n / fact n)"
    by (intro mult_right_mono) simp_all
  finally show ?thesis by simp
qed

lemma horner_step:
  assumes "0 \<le> y" "0 < d" "l \<le> horner y ds \<and> horner y ds \<le> u"
    and "l' \<le> 1 - y * u / d" "1 - y * l / d \<le> u'"
  shows "l' \<le> horner y (d # ds) \<and> horner y (d # ds) \<le> u'"
proof -
  have s: "horner y (d # ds) = 1 - y * horner y ds / d" by (rule horner.simps)
  from assms(3) have h: "l \<le> horner y ds" "horner y ds \<le> u" by simp_all
  have "y * l \<le> y * horner y ds" by (rule mult_left_mono [OF h(1) assms(1)])
  moreover have "y * horner y ds \<le> y * u" by (rule mult_left_mono [OF h(2) assms(1)])
  ultimately have "y * l / d \<le> y * horner y ds / d" "y * horner y ds / d \<le> y * u / d"
    using assms(2) by (simp_all add: divide_right_mono)
  with assms(4,5) show ?thesis unfolding s by linarith
qed

lemma cos_sum_18:
  "(\<Sum>m<18. cos_coeff m * x ^ m) = horner (x * x) [2, 12, 30, 56, 90, 132, 182, 240]"
proof -
  have "(\<Sum>m<18. cos_coeff m * x ^ m)
     = 1 - x ^ 2 / fact 2 + x ^ 4 / fact 4 - x ^ 6 / fact 6 + x ^ 8 / fact 8 - x ^ 10 / fact 10
       + x ^ 12 / fact 12 - x ^ 14 / fact 14 + x ^ 16 / fact 16"
    by (simp add: lessThan_nat_numeral cos_coeff_def)
  also have "\<dots> = horner (x * x) [2, 12, 30, 56, 90, 132, 182, 240]"
    by (simp add: horner.simps fact_numeral power2_eq_square power4_eq_xxxx eval_nat_numeral field_simps)
  finally show ?thesis .
qed

lemma sin_sum_18:
  "(\<Sum>m<18. sin_coeff m * x ^ m) = x * horner (x * x) [6, 20, 42, 72, 110, 156, 210, 272]"
proof -
  have "(\<Sum>m<18. sin_coeff m * x ^ m)
     = x - x ^ 3 / fact 3 + x ^ 5 / fact 5 - x ^ 7 / fact 7 + x ^ 9 / fact 9 - x ^ 11 / fact 11
       + x ^ 13 / fact 13 - x ^ 15 / fact 15 + x ^ 17 / fact 17"
    by (simp add: lessThan_nat_numeral sin_coeff_def)
  also have "\<dots> = x * horner (x * x) [6, 20, 42, 72, 110, 156, 210, 272]"
    by (simp add: horner.simps fact_numeral eval_nat_numeral field_simps)
  finally show ?thesis .
qed

lemma remainder_18:
  assumes "0 \<le> x" "x \<le> 4 / 5"
  shows "\<bar>x :: real\<bar> ^ 18 / fact 18 \<le> 1 / 2 ^ 58"
proof -
  have "\<bar>x\<bar> ^ 18 \<le> (4 / 5) ^ 18" using assms by (intro power_mono) simp_all
  then have "\<bar>x\<bar> ^ 18 / fact 18 \<le> (4 / 5) ^ 18 / fact 18" by (simp add: divide_right_mono)
  also have "\<dots> \<le> 1 / 2 ^ 58" by (simp add: fact_numeral power_divide)
  finally show ?thesis .
qed

lemma cos_enclosure:
  "(6369051672525773 - 1 / 2) / 2 ^ 53 < cos (884279719003555 / 2 ^ 50 :: real)"
  "cos (884279719003555 / 2 ^ 50 :: real) < (6369051672525773 + 1 / 2) / 2 ^ 53"
proof -
  define x :: real where "x = 884279719003555 / 2 ^ 50"
  define y where "y = x * x"
  have yv: "y = 781950621441006189802102638025 / 2 ^ 100" by (simp add: y_def x_def)
  have yp: "0 \<le> y" by (simp add: y_def)
  have b8: "1 \<le> horner y [] \<and> horner y [] \<le> 1" by (simp add: horner.simps)
  have b7: "632196236319445937852930555525 / 2 ^ 99 \<le> horner y [240]
        \<and> horner y [240] \<le> 1264392472638891875705861111051 / 2 ^ 100"
    by (rule horner_step [OF yp _ b8]) (simp_all add: yv)
  have b6: "631682605486253941350628465301 / 2 ^ 99 \<le> horner y [182, 240]
        \<and> horner y [182, 240] \<le> 1263365210972507882701256930603 / 2 ^ 100"
    by (rule horner_step [OF yp _ b7]) (simp_all add: yv)
  have b5: "19714793093303319181120568897 / 2 ^ 94 \<le> horner y [132, 182, 240]
        \<and> horner y [132, 182, 240] \<le> 1261746757971412427591716409409 / 2 ^ 100"
    by (rule horner_step [OF yp _ b6]) (simp_all add: yv)
  have b4: "157375340535860716775257829853 / 2 ^ 97 \<le> horner y [90, 132, 182, 240]
        \<and> horner y [90, 132, 182, 240] \<le> 1259002724286885734202062638825 / 2 ^ 100"
    by (rule horner_step [OF yp _ b5]) (simp_all add: yv)
  have b3: "19590350847096264734521358789 / 2 ^ 94 \<le> horner y [56, 90, 132, 182, 240]
        \<and> horner y [56, 90, 132, 182, 240] \<le> 1253782454214160943009366962497 / 2 ^ 100"
    by (rule horner_step [OF yp _ b4]) (simp_all add: yv)
  have b2: "1241870731836311278281433978627 / 2 ^ 100 \<le> horner y [30, 56, 90, 132, 182, 240]
        \<and> horner y [30, 56, 90, 132, 182, 240] \<le> 310467682959077819570358494657 / 2 ^ 98"
    by (rule horner_step [OF yp _ b3]) (simp_all add: yv)
  have b1: "1203813241683876695759619273349 / 2 ^ 100 \<le> horner y [12, 30, 56, 90, 132, 182, 240]
        \<and> horner y [12, 30, 56, 90, 132, 182, 240] \<le> 601906620841938347879809636675 / 2 ^ 99"
    by (rule horner_step [OF yp _ b2]) (simp_all add: yv)
  have b0: "224091083899144567174754571251 / 2 ^ 98 \<le> horner y [2, 12, 30, 56, 90, 132, 182, 240]
        \<and> horner y [2, 12, 30, 56, 90, 132, 182, 240] \<le> 448182167798289134349509142503 / 2 ^ 99"
    by (rule horner_step [OF yp _ b1]) (simp_all add: yv)
  have "\<bar>cos x - (\<Sum>m<18. cos_coeff m * x ^ m)\<bar> \<le> \<bar>x\<bar> ^ 18 / fact 18"
    by (rule Maclaurin_cos_bound)
  moreover have "\<bar>x\<bar> ^ 18 / fact 18 \<le> 1 / 2 ^ 58" by (rule remainder_18) (simp_all add: x_def)
  ultimately have e: "\<bar>cos x - horner y [2, 12, 30, 56, 90, 132, 182, 240]\<bar> \<le> 1 / 2 ^ 58"
    unfolding cos_sum_18 y_def by linarith
  have l: "(6369051672525773 - 1 / 2) / 2 ^ 53 < (224091083899144567174754571251 / 2 ^ 98 - 1 / 2 ^ 58 :: real)" by simp
  have u: "(448182167798289134349509142503 / 2 ^ 99 + 1 / 2 ^ 58 :: real) < (6369051672525773 + 1 / 2) / 2 ^ 53" by simp
  from e b0 l have 1: "(6369051672525773 - 1 / 2) / 2 ^ 53 < cos x" by linarith
  from e b0 u have 2: "cos x < (6369051672525773 + 1 / 2) / 2 ^ 53" by linarith
  from 1 show "(6369051672525773 - 1 / 2) / 2 ^ 53 < cos (884279719003555 / 2 ^ 50 :: real)"
    by (simp only: x_def)
  from 2 show "cos (884279719003555 / 2 ^ 50 :: real) < (6369051672525773 + 1 / 2) / 2 ^ 53"
    by (simp only: x_def)
qed

lemma sin_enclosure:
  "(6369051672525772 - 1 / 2) / 2 ^ 53 < sin (884279719003555 / 2 ^ 50 :: real)"
  "sin (884279719003555 / 2 ^ 50 :: real) < (6369051672525772 + 1 / 2) / 2 ^ 53"
proof -
  define x :: real where "x = 884279719003555 / 2 ^ 50"
  define y where "y = x * x"
  have yv: "y = 781950621441006189802102638025 / 2 ^ 100" by (simp add: y_def x_def)
  have yp: "0 \<le> y" by (simp add: y_def)
  have xp: "0 \<le> x" by (simp add: x_def)
  have b8: "1 \<le> horner y [] \<and> horner y [] \<le> 1" by (simp add: horner.simps)
  have b7: "632387890883524615840627149309 / 2 ^ 99 \<le> horner y [272]
        \<and> horner y [272] \<le> 1264775781767049231681254298619 / 2 ^ 100"
    by (rule horner_step [OF yp _ b8]) (simp_all add: yv)
  have b6: "631967735140585042668355449269 / 2 ^ 99 \<le> horner y [210, 272]
        \<and> horner y [210, 272] \<le> 1263935470281170085336710898539 / 2 ^ 100"
    by (rule horner_step [OF yp _ b7]) (simp_all add: yv)
  have b5: "1262652786494182933733469733227 / 2 ^ 100 \<le> horner y [156, 210, 272]
        \<and> horner y [156, 210, 272] \<le> 315663196623545733433367433307 / 2 ^ 98"
    by (rule horner_step [OF yp _ b6]) (simp_all add: yv)
  have b4: "630284992302003698140064011441 / 2 ^ 99 \<le> horner y [110, 156, 210, 272]
        \<and> horner y [110, 156, 210, 272] \<le> 1260569984604007396280128022883 / 2 ^ 100"
    by (rule horner_step [OF yp _ b5]) (simp_all add: yv)
  have b3: "1256850837148430047795867513065 / 2 ^ 100 \<le> horner y [72, 110, 156, 210, 272]
        \<and> horner y [72, 110, 156, 210, 272] \<le> 628425418574215023897933756533 / 2 ^ 99"
    by (rule horner_step [OF yp _ b4]) (simp_all add: yv)
  have b2: "312297835862923053879477719827 / 2 ^ 98 \<le> horner y [42, 72, 110, 156, 210, 272]
        \<and> horner y [42, 72, 110, 156, 210, 272] \<le> 1249191343451692215517910879309 / 2 ^ 100"
    by (rule horner_step [OF yp _ b3]) (simp_all add: yv)
  have b1: "1229122399037187060643357118161 / 2 ^ 100 \<le> horner y [20, 42, 72, 110, 156, 210, 272]
        \<and> horner y [20, 42, 72, 110, 156, 210, 272] \<le> 614561199518593530321678559081 / 2 ^ 99"
    by (rule horner_step [OF yp _ b2]) (simp_all add: yv)
  have b0: "570643259285911933505790481641 / 2 ^ 99 \<le> horner y [6, 20, 42, 72, 110, 156, 210, 272]
        \<and> horner y [6, 20, 42, 72, 110, 156, 210, 272] \<le> 1141286518571823867011580963283 / 2 ^ 100"
    by (rule horner_step [OF yp _ b1]) (simp_all add: yv)
  have "\<bar>sin x - (\<Sum>m<18. sin_coeff m * x ^ m)\<bar> \<le> inverse (fact 18) * \<bar>x\<bar> ^ 18"
    by (rule Maclaurin_sin_bound)
  then have m: "\<bar>sin x - x * horner y [6, 20, 42, 72, 110, 156, 210, 272]\<bar> \<le> \<bar>x\<bar> ^ 18 / fact 18"
    by (simp only: sin_sum_18 y_def divide_inverse_commute)
  have r: "\<bar>x\<bar> ^ 18 / fact 18 \<le> 1 / 2 ^ 58" by (rule remainder_18) (simp_all add: x_def)
  from m r have e: "\<bar>sin x - x * horner y [6, 20, 42, 72, 110, 156, 210, 272]\<bar> \<le> 1 / 2 ^ 58"
    by linarith
  from b0 have h: "570643259285911933505790481641 / 2 ^ 99 \<le> horner y [6, 20, 42, 72, 110, 156, 210, 272]"
    "horner y [6, 20, 42, 72, 110, 156, 210, 272] \<le> 1141286518571823867011580963283 / 2 ^ 100"
    by simp_all
  have p: "x * (570643259285911933505790481641 / 2 ^ 99) \<le> x * horner y [6, 20, 42, 72, 110, 156, 210, 272]"
    by (rule mult_left_mono [OF h(1) xp])
  have q: "x * horner y [6, 20, 42, 72, 110, 156, 210, 272] \<le> x * (1141286518571823867011580963283 / 2 ^ 100)"
    by (rule mult_left_mono [OF h(2) xp])
  have l: "(6369051672525772 - 1 / 2) / 2 ^ 53 < x * (570643259285911933505790481641 / 2 ^ 99) - 1 / 2 ^ 58"
    by (simp add: x_def)
  have u: "x * (1141286518571823867011580963283 / 2 ^ 100) + 1 / 2 ^ 58 < (6369051672525772 + 1 / 2) / 2 ^ 53"
    by (simp add: x_def)
  from e p l have 1: "(6369051672525772 - 1 / 2) / 2 ^ 53 < sin x" by linarith
  from e q u have 2: "sin x < (6369051672525772 + 1 / 2) / 2 ^ 53" by linarith
  from 1 show "(6369051672525772 - 1 / 2) / 2 ^ 53 < sin (884279719003555 / 2 ^ 50 :: real)"
    by (simp only: x_def)
  from 2 show "sin (884279719003555 / 2 ^ 50 :: real) < (6369051672525772 + 1 / 2) / 2 ^ 53"
    by (simp only: x_def)
qed

text \<open>\<open>\<pi> / 4\<close> to 64 binary places, by Machin's formula; \<open>Math.PI\<close> is the double nearest
  to \<open>\<pi>\<close>.\<close>

lemma quarter_pi_enclosure:
  "14488038916154245684 / 2 ^ 64 < pi / 4" "pi / 4 < 14488038916154245685 / 2 ^ 64"
proof -
  have l5: "arctan_sum (1 / 5) (2 * 7) \<le> arctan (1 / 5)"
    and u5: "arctan (1 / 5) \<le> arctan_sum (1 / 5) (2 * 7 + 1)"
    by (rule arctan_enclosure; simp)+
  have l239: "arctan_sum (1 / 239) (2 * 2) \<le> arctan (1 / 239)"
    and u239: "arctan (1 / 239) \<le> arctan_sum (1 / 239) (2 * 2 + 1)"
    by (rule arctan_enclosure; simp)+
  have a: "14488038916154245684 / 2 ^ 64
      < 4 * arctan_sum (1 / 5) (2 * 7) - arctan_sum (1 / 239) (2 * 2 + 1)"
    by (simp add: eval_nat_numeral arctan_sum_Suc arctan_sum_0)
  have b: "4 * arctan_sum (1 / 5) (2 * 7 + 1) - arctan_sum (1 / 239) (2 * 2)
      < 14488038916154245685 / 2 ^ 64"
    by (simp add: eval_nat_numeral arctan_sum_Suc arctan_sum_0)
  from a l5 u239 show "14488038916154245684 / 2 ^ 64 < pi / 4" unfolding machin by linarith
  from b u5 l239 show "pi / 4 < 14488038916154245685 / 2 ^ 64" unfolding machin by linarith
qed

lemma fl_quarter_pi: "fl (pi / 4) = 884279719003555 / 2 ^ 50"
proof -
  note p = quarter_pi_enclosure
  have "fl (pi / 4) = of_int 7074237752028440 * (1 / 2 ^ 53)"
  proof (rule fl_eqI [where e = "- 1"])
    show "rne (pi / 4 / (1 / 2 ^ 53)) = 7074237752028440"
      using p by (intro rne_eqI) simp_all
    show "2 powr real_of_int (- 1) \<le> \<bar>pi / 4\<bar>" using p by (simp add: powr_minus_divide)
    show "\<bar>pi / 4\<bar> < 2 powr (real_of_int (- 1) + 1)" using p by simp
  qed (simp_all add: powr_minus_divide)
  then show ?thesis by simp
qed

lemma fl_pi: "fl pi = Math_PI"
proof -
  note p = quarter_pi_enclosure
  have "fl pi = of_int 7074237752028440 * (1 / 2 ^ 51)"
  proof (rule fl_eqI [where e = 1])
    show "rne (pi / (1 / 2 ^ 51)) = 7074237752028440"
      using p by (intro rne_eqI) simp_all
    show "2 powr real_of_int 1 \<le> \<bar>pi\<bar>" using p by simp
    show "\<bar>pi\<bar> < 2 powr (real_of_int 1 + 1)" using p by simp
  qed (simp_all add: powr_minus_divide)
  then show ?thesis by (simp add: Math_PI_def)
qed

lemma fl_cos_diagonal: "fl (cos (884279719003555 / 2 ^ 50)) = 6369051672525773 / 2 ^ 53"
proof -
  note c = cos_enclosure
  have "fl (cos (884279719003555 / 2 ^ 50)) = of_int 6369051672525773 * (1 / 2 ^ 53)"
  proof (rule fl_eqI [where e = "- 1"])
    show "rne (cos (884279719003555 / 2 ^ 50) / (1 / 2 ^ 53)) = 6369051672525773"
      using c by (intro rne_eqI) simp_all
    show "2 powr real_of_int (- 1) \<le> \<bar>cos (884279719003555 / 2 ^ 50)\<bar>"
      using c by (simp add: powr_minus_divide)
    show "\<bar>cos (884279719003555 / 2 ^ 50)\<bar> < 2 powr (real_of_int (- 1) + 1)" using c by simp
  qed (simp_all add: powr_minus_divide)
  then show ?thesis by simp
qed

lemma fl_sin_diagonal: "fl (sin (884279719003555 / 2 ^ 50)) = 1592262918131443 / 2 ^ 51"
proof -
  note c = sin_enclosure
  have "fl (sin (884279719003555 / 2 ^ 50)) = of_int 6369051672525772 * (1 / 2 ^ 53)"
  proof (rule fl_eqI [where e = "- 1"])
    show "rne (sin (884279719003555 / 2 ^ 50) / (1 / 2 ^ 53)) = 6369051672525772"
      using c by (intro rne_eqI) simp_all
    show "2 powr real_of_int (- 1) \<le> \<bar>sin (884279719003555 / 2 ^ 50)\<bar>"
      using c by (simp add: powr_minus_divide)
    show "\<bar>sin (884279719003555 / 2 ^ 50)\<bar> < 2 powr (real_of_int (- 1) + 1)" using c by simp
  qed (simp_all add: powr_minus_divide)
  then show ?thesis by simp
qed

lemma arctan_below_one:
  "arctan (4975821619160759 / 4975821619160760) = pi / 4 - arctan (1 / 9951643238321519)"
proof -
  have "arctan (4975821619160759 / 4975821619160760) + arctan (1 / 9951643238321519)
      = arctan ((4975821619160759 / 4975821619160760 + 1 / 9951643238321519)
          / (1 - 4975821619160759 / 4975821619160760 * (1 / 9951643238321519)))"
    by (rule arctan_add) simp_all
  also have "\<dots> = arctan 1" by simp
  finally show ?thesis by (simp add: arctan_one)
qed

lemma clamped_arctan_enclosure:
  "(7074237752028439 - 1 / 2) / 2 ^ 53 < arctan (4975821619160759 / 4975821619160760)"
  "arctan (4975821619160759 / 4975821619160760) < (7074237752028439 + 1 / 2) / 2 ^ 53"
proof -
  define t :: real where "t = 1 / 9951643238321519"
  have t: "0 \<le> t" "t \<le> 1" by (simp_all add: t_def)
  have "arctan_sum t (2 * 1) \<le> arctan t" by (rule arctan_enclosure [OF t])
  then have l: "t - t ^ 3 / 3 \<le> arctan t"
    by (simp add: arctan_sum_Suc arctan_sum_0 eval_nat_numeral)
  have "arctan t \<le> arctan_sum t (2 * 0 + 1)" by (rule arctan_enclosure [OF t])
  then have u: "arctan t \<le> t" by (simp add: arctan_sum_Suc arctan_sum_0)
  have a: "(7074237752028439 - 1 / 2) / 2 ^ 53 < 14488038916154245684 / 2 ^ 64 - t"
    by (simp add: t_def)
  have b: "14488038916154245685 / 2 ^ 64 - (t - t ^ 3 / 3) < (7074237752028439 + 1 / 2) / 2 ^ 53"
    by (simp add: t_def power_divide)
  from a u quarter_pi_enclosure(1)
  show "(7074237752028439 - 1 / 2) / 2 ^ 53 < arctan (4975821619160759 / 4975821619160760)"
    unfolding arctan_below_one t_def [symmetric] by linarith
  from b l quarter_pi_enclosure(2)
  show "arctan (4975821619160759 / 4975821619160760) < (7074237752028439 + 1 / 2) / 2 ^ 53"
    unfolding arctan_below_one t_def [symmetric] by linarith
qed

lemma fl_atan2_diagonal: "fl (atan2 100 100) = 884279719003555 / 2 ^ 50"
proof -
  have "atan2 100 100 = pi / 4" by (simp add: atan2_def arctan_one)
  then show ?thesis by (simp only: fl_quarter_pi)
qed

lemma fl_atan2_clamped:
  "fl (atan2 (4975821619160759 / 2 ^ 46) (621977702395095 / 2 ^ 43)) = 7074237752028439 / 2 ^ 53"
proof -
  note c = clamped_arctan_enclosure
  have a: "atan2 (4975821619160759 / 2 ^ 46) (621977702395095 / 2 ^ 43)
      = arctan (4975821619160759 / 4975821619160760)"
    by (simp add: atan2_def)
  have "fl (arctan (4975821619160759 / 4975821619160760))
      = of_int 7074237752028439 * (1 / 2 ^ 53)"
  proof (rule fl_eqI [where e = "- 1"])
    show "rne (arctan (4975821619160759 / 4975821619160760) / (1 / 2 ^ 53)) = 7074237752028439"
      using c by (intro rne_eqI) simp_all
    show "2 powr real_of_int (- 1) \<le> \<bar>arctan (4975821619160759 / 4975821619160760)\<bar>"
      using c by (simp add: powr_minus_divide)
    show "\<bar>arctan (4975821619160759 / 4975821619160760)\<bar> < 2 powr (real_of_int (- 1) + 1)"
      using c by simp
  qed (simp_all add: powr_minus_divide)
  then have "fl (arctan (4975821619160759 / 4975821619160760)) = 7074237752028439 / 2 ^ 53"
    by simp
  then show ?thesis by (simp only: a)
qed


subsection \<open>What each operation leaves unchanged\<close>

lemma sendCommand_frame:
  "lastCommand (sendCommand w cmd s) = lastCommand s"
  "lastCommandTime (sendCommand w cmd s) = lastCommandTime s"
  "commandDelay (sendCommand w cmd s) = commandDelay s"
  "isConnected (sendCommand w cmd s) = isConnected s"
  "characteristic (sendCommand w cmd s) = characteristic s"
  "device (sendCommand w cmd s) = device s"
  "connectionStartTime (sendCommand w cmd s) = connectionStartTime s"
  "knob (sendCommand w cmd s) = knob s"
  "joystickActive (sendCommand w cmd s) = joystickActive s"
  by (simp_all add: sendCommand_def sendCommand_try_def writeValue_def updateDirection_def
        Let_def split: write_result.split)

lemma sendCommand_inactive:
  "\<not> Active s \<Longrightarrow> sendCommand w cmd s = s\<lparr> console := console s @ [WarnNotConnected] \<rparr>"
  by (auto simp add: sendCommand_def Active_def)

lemma sendCommand_writes:
  "Active s \<Longrightarrow> writes (sendCommand w cmd s) = writes s @ [(cmd, w)]"
  by (simp add: sendCommand_def Active_def sendCommand_try_def writeValue_def updateDirection_def
        Let_def split: write_result.split)

lemma sendCommand_Active: "Active (sendCommand w cmd s) = Active s"
  by (simp add: Active_def sendCommand_frame)

lemma sendCommand_count_disconnected:
  "\<not> isConnected s \<Longrightarrow> commandCount (sendCommand w cmd s) = commandCount s"
  by (simp add: sendCommand_def)

lemma onDisconnected_frame:
  "lastCommand (onDisconnected s) = lastCommand s"
  "lastCommandTime (onDisconnected s) = lastCommandTime s"
  "commandDelay (onDisconnected s) = commandDelay s"
  "connectionStartTime (onDisconnected s) = connectionStartTime s"
  "writes (onDisconnected s) = writes s"
  "console (onDisconnected s) = console s"
  by (simp_all add: onDisconnected_def updateDirection_def Let_def)

lemma onDisconnected_result:
  "isConnected (onDisconnected s) = False"
  "characteristic (onDisconnected s) = None"
  "device (onDisconnected s) = None"
  "commandCount (onDisconnected s) = 0"
  "currentDirection (onDisconnected s) = ''Stopped''"
  by (simp_all add: onDisconnected_def updateDirection_def dirMap_def Let_def)

lemma gattserverdisconnected_frame:
  "lastCommand (gattserverdisconnected s) = lastCommand s"
  "lastCommandTime (gattserverdisconnected s) = lastCommandTime s"
  "commandDelay (gattserverdisconnected s) = commandDelay s"
  "connectionStartTime (gattserverdisconnected s) = connectionStartTime s"
  "writes (gattserverdisconnected s) = writes s"
  by (simp_all add: gattserverdisconnected_def onDisconnected_frame)

lemma listeners_frame:
  "lastCommand ((gattserverdisconnected ^^ n) s) = lastCommand s"
  "lastCommandTime ((gattserverdisconnected ^^ n) s) = lastCommandTime s"
  "commandDelay ((gattserverdisconnected ^^ n) s) = commandDelay s"
  "connectionStartTime ((gattserverdisconnected ^^ n) s) = connectionStartTime s"
  "writes ((gattserverdisconnected ^^ n) s) = writes s"
  by (induction n) (simp_all add: gattserverdisconnected_frame)


lemma dropLink_frame:
  "lastCommand (dropLink d s) = lastCommand s"
  "lastCommandTime (dropLink d s) = lastCommandTime s"
  "commandDelay (dropLink d s) = commandDelay s"
  "connectionStartTime (dropLink d s) = connectionStartTime s"
  "writes (dropLink d s) = writes s"
  by (simp_all add: dropLink_def listeners_frame)

lemma disconnect_frame:
  "lastCommand (disconnect w s) = lastCommand s"
  "lastCommandTime (disconnect w s) = lastCommandTime s"
  "commandDelay (disconnect w s) = commandDelay s"
  "connectionStartTime (disconnect w s) = connectionStartTime s"
  by (simp_all add: disconnect_def onDisconnected_frame dropLink_frame sendCommand_frame
        split: option.split)

lemma disconnect_result:
  "isConnected (disconnect w s) = False"
  "characteristic (disconnect w s) = None"
  "device (disconnect w s) = None"
  "commandCount (disconnect w s) = 0"
  "currentDirection (disconnect w s) = ''Stopped''"
  by (simp_all add: disconnect_def onDisconnected_result split: option.split)

lemma linkLost_frame:
  "lastCommand (linkLost s) = lastCommand s"
  "lastCommandTime (linkLost s) = lastCommandTime s"
  "commandDelay (linkLost s) = commandDelay s"
  "connectionStartTime (linkLost s) = connectionStartTime s"
  "writes (linkLost s) = writes s"
  by (simp_all add: linkLost_def dropLink_frame split: option.split)

lemma connect_frame:
  "lastCommand (connect oc now s) = lastCommand s"
  "lastCommandTime (connect oc now s) = lastCommandTime s"
  "commandDelay (connect oc now s) = commandDelay s"
  "commandCount (connect oc now s) = commandCount s"
  "writes (connect oc now s) = writes s"
  by (simp_all add: connect_def onConnected_def Let_def split: connect_outcome.split)

lemma updateCenter_frame:
  "lastCommand (updateCenter r s) = lastCommand s"
  "lastCommandTime (updateCenter r s) = lastCommandTime s"
  "commandDelay (updateCenter r s) = commandDelay s"
  "commandCount (updateCenter r s) = commandCount s"
  "isConnected (updateCenter r s) = isConnected s"
  by (simp_all add: updateCenter_def)

lemma sendCommandThrottled_frame:
  "commandDelay (sendCommandThrottled w now cmd s) = commandDelay s"
  "isConnected (sendCommandThrottled w now cmd s) = isConnected s"
  by (simp_all add: sendCommandThrottled_def sendCommand_frame)

lemma sendCommand_resume_frame:
  "lastCommand (sendCommand_resume w cmd s) = lastCommand s"
  "lastCommandTime (sendCommand_resume w cmd s) = lastCommandTime s"
  "commandDelay (sendCommand_resume w cmd s) = commandDelay s"
  "isConnected (sendCommand_resume w cmd s) = isConnected s"
  by (simp_all add: sendCommand_resume_def updateDirection_def Let_def split: write_result.split)

lemma step_commandDelay: "commandDelay (step e s) = commandDelay s"
  by (cases e)
     (simp_all add: connect_frame disconnect_frame arrowButton_def speedSliderInput_def Let_def
        emergencyStop_def sendCommand_frame updateCenter_frame handleJoystickMove_def
        sendCommandThrottled_frame resetJoystick_def linkLost_frame sendCommand_resume_frame)

lemma reachable_commandDelay: "reachable s \<Longrightarrow> commandDelay s = 100"
  by (induction rule: reachable.induct)
     (simp_all add: step_commandDelay newRoverController_def updateCenter_def constructor_fields_def)

lemma throttleAccepts_knob [simp]: "throttleAccepts cmd now (s\<lparr> knob := k \<rparr>) = throttleAccepts cmd now s"
  by (simp add: throttleAccepts_def)

lemma Active_knob [simp]: "Active (s\<lparr> knob := k \<rparr>) = Active s"
  by (simp add: Active_def)

lemma Active_currentSpeed [simp]: "Active (s\<lparr> currentSpeed := k \<rparr>) = Active s"
  by (simp add: Active_def)

subsection \<open>Firing the disconnect listeners\<close>

lemma onDisconnected_console:
  "onDisconnected (s\<lparr> console := c \<rparr>) = (onDisconnected s)\<lparr> console := c \<rparr>"
  by (simp add: onDisconnected_def updateDirection_def Let_def)

lemma onDisconnected_idem: "onDisconnected (onDisconnected s) = onDisconnected s"
  by (simp add: onDisconnected_def updateDirection_def Let_def)

lemma gattserverdisconnected_eq:
  "gattserverdisconnected s = (onDisconnected s)\<lparr> console := console s @ [LogDeviceDisconnected] \<rparr>"
  by (simp add: gattserverdisconnected_def onDisconnected_console)

lemma listeners_fire:
  "0 < n \<Longrightarrow> (gattserverdisconnected ^^ n) s
     = (onDisconnected s)\<lparr> console := console s @ replicate n LogDeviceDisconnected \<rparr>"
proof (induction n)
  case 0
  then show ?case by simp
next
  case (Suc n)
  show ?case
  proof (cases "n = 0")
    case True
    then show ?thesis by (simp add: gattserverdisconnected_eq)
  next
    case False
    with Suc.IH have ih: "(gattserverdisconnected ^^ n) s
       = (onDisconnected s)\<lparr> console := console s @ replicate n LogDeviceDisconnected \<rparr>" by simp
    have "(gattserverdisconnected ^^ Suc n) s = gattserverdisconnected ((gattserverdisconnected ^^ n) s)"
      by simp
    also have "\<dots> = gattserverdisconnected
        ((onDisconnected s)\<lparr> console := console s @ replicate n LogDeviceDisconnected \<rparr>)"
      by (simp only: ih)
    also have "\<dots> = (onDisconnected s)\<lparr> console := console s @ replicate (Suc n) LogDeviceDisconnected \<rparr>"
      by (simp add: gattserverdisconnected_eq onDisconnected_console onDisconnected_idem
            replicate_append_same)
    finally show ?thesis .
  qed
qed

lemma onDisconnected_device:
  "onDisconnected (s\<lparr> device := d \<rparr>) = onDisconnected s"
  by (simp add: onDisconnected_def updateDirection_def Let_def)

lemma dropLink_fire:
  "0 < disconnect_listeners d \<Longrightarrow> dropLink d s
     = (onDisconnected s)\<lparr> console := console s @ replicate (disconnect_listeners d) LogDeviceDisconnected \<rparr>"
  by (simp add: dropLink_def listeners_fire onDisconnected_device)

lemma onDisconnected_sendCommand:
  "onDisconnected (sendCommand w cmd s)
     = (onDisconnected s)\<lparr> writes := writes (sendCommand w cmd s), console := console (sendCommand w cmd s) \<rparr>"
  by (simp add: sendCommand_def sendCommand_try_def writeValue_def onDisconnected_def updateDirection_def Let_def
        split: write_result.split)

subsection \<open>The throttle state\<close>

lemma throttleState_sendCommand: "throttleState (sendCommand w cmd s) = throttleState s"
  by (simp add: throttleState_def sendCommand_frame)

lemma throttleState_fields [simp]:
  "throttleState (s\<lparr> knob := k \<rparr>) = throttleState s"
  "throttleState (s\<lparr> currentSpeed := p \<rparr>) = throttleState s"
  "throttleState (s\<lparr> joystickActive := b \<rparr>) = throttleState s"
  "throttleState (updateCenter r s) = throttleState s"
  by (simp_all add: throttleState_def updateCenter_def)

lemma throttleState_unthrottled:
  "throttleState (resetJoystick w s) = throttleState s"
  "throttleState (emergencyStop w s) = throttleState s"
  "throttleState (arrowButton w cmd s) = throttleState s"
  "throttleState (speedSliderInput w p s) = throttleState s"
  by (simp_all add: resetJoystick_def emergencyStop_def arrowButton_def speedSliderInput_def
        Let_def throttleState_sendCommand)

lemma throttleState_link:
  "throttleState (connect oc now s) = throttleState s"
  "throttleState (onDisconnected s) = throttleState s"
  "throttleState (disconnect w s) = throttleState s"
  "throttleState (linkLost s) = throttleState s"
  by (simp_all add: throttleState_def connect_frame onDisconnected_frame disconnect_frame linkLost_frame)

lemma throttleState_rejected:
  "\<not> throttleAccepts cmd now s \<Longrightarrow> throttleState (sendCommandThrottled w now cmd s) = throttleState s"
  by (simp add: sendCommandThrottled_def)

lemma throttleState_accepted:
  "throttleAccepts cmd now s \<Longrightarrow> throttleState (sendCommandThrottled w now cmd s) = (cmd, now)"
  by (simp add: sendCommandThrottled_def throttleState_def)

lemma throttleState_resume: "throttleState (sendCommand_resume w cmd s) = throttleState s"
  by (simp add: throttleState_def sendCommand_resume_frame)

lemma step_changes_throttleState:
  "throttleState (step e s) \<noteq> throttleState s \<Longrightarrow>
     \<exists>m x y now w. e = JoystickMove m x y now w \<and> joystickActive s \<and>
        throttleAccepts (joystickMoveCommand m (maxRadius s) (fl (x - fst (joystickCenter s)))
                           (fl (y - snd (joystickCenter s)))) now s"
proof (cases e)
  case (JoystickMove m x y now w)
  assume ch: "throttleState (step e s) \<noteq> throttleState s"
  let ?cmd = "joystickMoveCommand m (maxRadius s) (fl (x - fst (joystickCenter s))) (fl (y - snd (joystickCenter s)))"
  from ch JoystickMove have a: "joystickActive s" by (auto split: if_splits)
  have "throttleAccepts ?cmd now s"
  proof (rule ccontr)
    assume "\<not> throttleAccepts ?cmd now s"
    then have "throttleState (step e s) = throttleState s"
      using JoystickMove a by (simp add: handleJoystickMove_def Let_def throttleState_rejected)
    with ch show False by simp
  qed
  with a JoystickMove show ?thesis by blast
qed (simp_all add: throttleState_unthrottled throttleState_link throttleState_resume
       split: if_splits)

subsection \<open>The example states\<close>

lemma exampleIdle_eq:
  "exampleIdle =
     \<lparr> device = None, characteristic = None, isConnected = False,
       currentSpeed = 50, currentDirection = ''STOP'', commandCount = 0,
       connectionStartTime = None,
       joystickActive = False, joystickCenter = (130, 130), maxRadius = 80,
       lastCommand = '''', lastCommandTime = 0, commandDelay = 100,
       knob = (0, 0), writes = [], console = [] \<rparr>"
  by (simp add: exampleIdle_def newRoverController_def updateCenter_def constructor_fields_def
        exampleRect_def fl_values)

lemma exampleActive_eq:
  "exampleActive =
     \<lparr> device = Some \<lparr> gatt_connected = True, disconnect_listeners = 1 \<rparr>,
       characteristic = Some 7, isConnected = True,
       currentSpeed = 50, currentDirection = ''STOP'', commandCount = 0,
       connectionStartTime = Some 1000,
       joystickActive = False, joystickCenter = (130, 130), maxRadius = 80,
       lastCommand = '''', lastCommandTime = 0, commandDelay = 100,
       knob = (0, 0), writes = [], console = [LogConnected] \<rparr>"
  by (simp add: exampleActive_def exampleIdle_eq connect_def onConnected_def exampleDevice_def)

lemma exampleIdle_reachable: "reachable exampleIdle"
  unfolding exampleIdle_def by (rule reachable_new)

lemma exampleActive_reachable: "reachable exampleActive"
  unfolding exampleActive_def by (rule reachable_step [OF exampleIdle_reachable])

lemma exampleActive_Active: "Active exampleActive"
  by (simp add: exampleActive_eq Active_def)

subsection \<open>What is written\<close>

lemma speedSliderInput_writes:
  "writes (speedSliderInput w p s)
     = (if Active s then writes s @ [(''SPEED:'' @ Number_toString (speedByte p), w)] else writes s)"
  by (simp add: speedSliderInput_def Let_def sendCommand_writes sendCommand_inactive)

lemma speedSliderInput_Active: "Active (speedSliderInput w p s) = Active s"
  by (simp add: speedSliderInput_def Let_def sendCommand_Active)

lemma sendCommandThrottled_writes:
  "writes (sendCommandThrottled w now cmd s)
     = (if throttleAccepts cmd now s \<and> Active s then writes s @ [(cmd, w)] else writes s)"
  by (simp add: sendCommandThrottled_def sendCommand_writes sendCommand_inactive)

subsection \<open>Connect and the two ways out of the Active state\<close>

lemma connect_resolved:
  "connect (ConnectResolved d c) now s
     = s\<lparr> device := Some (d\<lparr> gatt_connected := True,
                               disconnect_listeners := disconnect_listeners d + 1 \<rparr>),
          characteristic := Some c, isConnected := True, connectionStartTime := Some now,
          console := console s @ [LogConnected] \<rparr>"
  by (simp add: connect_def onConnected_def)

lemma disconnect_active:
  assumes "device s = Some d" "gatt_connected d" "0 < disconnect_listeners d"
  shows "disconnect w s
     = (onDisconnected s)\<lparr> writes := writes (sendCommand w ''S'' s),
          console := console (sendCommand w ''S'' s)
                     @ replicate (disconnect_listeners d) LogDeviceDisconnected \<rparr>"
proof -
  let ?t = "sendCommand w ''S'' s"
  have "disconnect w s = onDisconnected (dropLink d ?t)"
    using assms by (simp add: disconnect_def)
  also have "\<dots> = (onDisconnected ?t)\<lparr> console := console ?t
                     @ replicate (disconnect_listeners d) LogDeviceDisconnected \<rparr>"
    using assms by (simp add: dropLink_fire onDisconnected_console onDisconnected_idem)
  also have "\<dots> = (onDisconnected s)\<lparr> writes := writes ?t,
          console := console ?t @ replicate (disconnect_listeners d) LogDeviceDisconnected \<rparr>"
    by (simp add: onDisconnected_sendCommand)
  finally show ?thesis .
qed

lemma linkLost_active:
  assumes "device s = Some d" "gatt_connected d" "0 < disconnect_listeners d"
  shows "linkLost s
     = (onDisconnected s)\<lparr> console := console s
                     @ replicate (disconnect_listeners d) LogDeviceDisconnected \<rparr>"
  using assms by (simp add: linkLost_def dropLink_fire)

lemma Active_onDisconnected [simp]:
  "\<not> Active ((onDisconnected s)\<lparr> console := c \<rparr>)"
  "\<not> Active ((onDisconnected s)\<lparr> writes := ws, console := c \<rparr>)"
  by (simp_all add: Active_def onDisconnected_result)


lemma joystickCommand_nonempty: "joystickCommand d a \<noteq> ''''"
  by (simp add: joystickCommand_def)

lemma joystickMoveCommand_nonempty: "joystickMoveCommand m r dx dy \<noteq> ''''"
  by (simp add: joystickMoveCommand_def Let_def joystickCommand_nonempty split: prod.split)

subsection \<open>Decimal digits and rounding\<close>



















lemma fl_percent_50: "fl (50 / 100) = 1 / 2 ^ 1"
proof -
  have "fl (50 / 100) = of_int 4503599627370496 * (1 / 2 ^ 53)"
  proof (rule fl_eqI [where e = "- 1"])
    show "rne (50 / 100 / (1 / 2 ^ 53)) = 4503599627370496" by (simp add: rne_def)
  qed (simp_all add: powr_minus_divide)
  then show ?thesis by simp
qed

lemma fl_scaled_50: "fl (1 / 2 ^ 1 * 255) = 255 / 2"
proof -
  have "fl (1 / 2 ^ 1 * 255) = of_int 8972014882652160 * (1 / 2 ^ 46)"
  proof (rule fl_eqI [where e = 6])
    show "rne (1 / 2 ^ 1 * 255 / (1 / 2 ^ 46)) = 8972014882652160" by (simp add: rne_def)
  qed (simp_all add: powr_minus_divide)
  then show ?thesis by simp
qed

lemma speedByte_50: "speedByte 50 = 128"
proof -
  have "real_of_int 50 / 100 = 50 / 100" by simp
  then have "speedByte 50 = Math_round (255 / 2)"
    by (simp only: speedByte_def fl_percent_50 fl_scaled_50)
  then show ?thesis by (simp add: Math_round_def)
qed














lemma sendCommandThrottled_knob: "knob (sendCommandThrottled w now cmd s) = knob s"
  by (simp add: sendCommandThrottled_def sendCommand_frame)

lemma sqrt_10000: "sqrt 10000 = (100::real)"
proof -
  have "sqrt (100 * 100) = \<bar>100::real\<bar>" by (rule real_sqrt_abs2)
  then show ?thesis by simp
qed

lemma sqrt_3600: "sqrt 3600 = (60::real)"
proof -
  have "sqrt (60 * 60) = \<bar>60::real\<bar>" by (rule real_sqrt_abs2)
  then show ?thesis by simp
qed


subsection \<open>The displacement (100, 100) in the example library\<close>

lemma engineMath_diagonal:
  "Math_sqrt engineMath 20000 = 621977702395095 / 2 ^ 42"
  "Math_atan2 engineMath 100 100 = 884279719003555 / 2 ^ 50"
  "Math_cos engineMath (884279719003555 / 2 ^ 50) = 6369051672525773 / 2 ^ 53"
  "Math_sin engineMath (884279719003555 / 2 ^ 50) = 1592262918131443 / 2 ^ 51"
  "Math_atan2 engineMath (4975821619160759 / 2 ^ 46) (621977702395095 / 2 ^ 43)
     = 7074237752028439 / 2 ^ 53"
  unfolding engineMath_def
  by (simp_all only: js_math.select_convs sqrt_20000_rounded fl_atan2_diagonal fl_cos_diagonal
        fl_sin_diagonal fl_atan2_clamped)

lemma diagonal_distance: "distance engineMath 100 100 = 621977702395095 / 2 ^ 42"
proof -
  have "fl (fl (100 * 100) + fl (100 * 100)) = 20000" by (simp add: fl_values)
  then show ?thesis by (simp only: distance_def engineMath_diagonal)
qed


lemma diagonal_clamped:
  "clampToRadius engineMath 100 100 100 = (621977702395095 / 2 ^ 43, 4975821619160759 / 2 ^ 46)"
proof -
  have d: "Math_sqrt engineMath (fl (fl (100 * 100) + fl (100 * 100))) = 621977702395095 / 2 ^ 42"
    using diagonal_distance by (simp only: distance_def)
  have g: "(621977702395095 / 2 ^ 42 :: real) > 100" by simp
  show ?thesis
    by (simp only: clampToRadius_def Let_def d g if_True engineMath_diagonal
          fl_cos_times_100 fl_sin_times_100)
qed


lemma diagonal_unclamped: "clampToRadius engineMath 200 100 100 = (100, 100)"
proof -
  have d: "Math_sqrt engineMath (fl (fl (100 * 100) + fl (100 * 100))) = 621977702395095 / 2 ^ 42"
    using diagonal_distance by (simp only: distance_def)
  have g: "\<not> (621977702395095 / 2 ^ 42 :: real) > 200" by simp
  show ?thesis
    by (simp only: clampToRadius_def Let_def d g if_False)
qed

lemma engineMath_accurate:
  "\<bar>Math_cos engineMath a - cos a\<bar> \<le> 2 powr (- 52)"
  "\<bar>Math_sin engineMath a - sin a\<bar> \<le> 2 powr (- 52)"
proof -
  have t: "(2::real) powr (- 1075) \<le> 2 powr (- 53)" by (intro powr_mono) simp_all
  have d: "(2::real) powr (- 52) = 2 * 2 powr (- 53)" by (simp add: powr_minus_divide)
  have "\<bar>fl (cos a) - cos a\<bar> \<le> 2 powr (- 53) * \<bar>cos a\<bar> + 2 powr (- 1075)" by (rule fl_error)
  moreover have "2 powr (- 53) * \<bar>cos a\<bar> \<le> 2 powr (- 53) * 1"
    by (intro mult_left_mono) simp_all
  ultimately have "\<bar>fl (cos a) - cos a\<bar> \<le> 2 powr (- 52)" using t d by linarith
  then show "\<bar>Math_cos engineMath a - cos a\<bar> \<le> 2 powr (- 52)" by (simp add: engineMath_def)
  have "\<bar>fl (sin a) - sin a\<bar> \<le> 2 powr (- 53) * \<bar>sin a\<bar> + 2 powr (- 1075)" by (rule fl_error)
  moreover have "2 powr (- 53) * \<bar>sin a\<bar> \<le> 2 powr (- 53) * 1"
    by (intro mult_left_mono) simp_all
  ultimately have "\<bar>fl (sin a) - sin a\<bar> \<le> 2 powr (- 52)" using t d by linarith
  then show "\<bar>Math_sin engineMath a - sin a\<bar> \<le> 2 powr (- 52)" by (simp add: engineMath_def)
qed

subsection \<open>The clamp\<close>

lemma clampToRadius_inside:
  "distance m dx dy \<le> maxR \<Longrightarrow> clampToRadius m maxR dx dy = (dx, dy)"
  by (simp add: clampToRadius_def distance_def)

lemma clampToRadius_outside:
  "maxR < distance m dx dy \<Longrightarrow>
     clampToRadius m maxR dx dy
       = (fl (Math_cos m (Math_atan2 m dy dx) * maxR), fl (Math_sin m (Math_atan2 m dy dx) * maxR))"
  by (simp add: clampToRadius_def distance_def Let_def)


text \<open>A product that is rounded lies within the rounding error of the exact product of
  nearby factors.\<close>

lemma rounded_product_close:
  assumes "\<bar>c - t\<bar> \<le> 2 powr (- 52)" "\<bar>t\<bar> \<le> 1"
  shows "\<bar>fl (c * r) - r * t\<bar> \<le> \<bar>r\<bar> * 2 powr (- 51) + 2 powr (- 1075)"
proof -
  have e52: "(2::real) powr (- 52) \<le> 1"
    by (simp add: powr_minus_divide)
  have c2: "\<bar>c\<bar> \<le> 2" using assms e52 by linarith
  have p51: "(2::real) powr (- 51) = 2 * 2 powr (- 52)" by (simp add: powr_minus_divide)
  have p52: "(2::real) powr (- 52) = 2 * 2 powr (- 53)" by (simp add: powr_minus_divide)
  have "\<bar>fl (c * r) - c * r\<bar> \<le> 2 powr (- 53) * \<bar>c * r\<bar> + 2 powr (- 1075)"
    by (rule fl_error)
  also have "2 powr (- 53) * \<bar>c * r\<bar> \<le> 2 powr (- 53) * (2 * \<bar>r\<bar>)"
    using c2 by (intro mult_left_mono) (simp_all add: abs_mult mult_right_mono)
  finally have a: "\<bar>fl (c * r) - c * r\<bar> \<le> \<bar>r\<bar> * 2 powr (- 52) + 2 powr (- 1075)"
    by (simp add: p52 algebra_simps)
  have "\<bar>c * r - r * t\<bar> = \<bar>r\<bar> * \<bar>c - t\<bar>"
    by (simp add: abs_mult [symmetric] algebra_simps)
  also have "\<dots> \<le> \<bar>r\<bar> * 2 powr (- 52)"
    using assms(1) by (intro mult_left_mono) simp_all
  finally have b: "\<bar>c * r - r * t\<bar> \<le> \<bar>r\<bar> * 2 powr (- 52)" .
  have "\<bar>fl (c * r) - r * t\<bar> \<le> \<bar>fl (c * r) - c * r\<bar> + \<bar>c * r - r * t\<bar>" by linarith
  with a b have "\<bar>fl (c * r) - r * t\<bar> \<le> \<bar>r\<bar> * 2 powr (- 52) + \<bar>r\<bar> * 2 powr (- 52) + 2 powr (- 1075)"
    by linarith
  then show ?thesis by (simp add: p51 algebra_simps)
qed

text \<open>The length of a vector near the point at distance \<open>\<bar>r\<bar>\<close> in direction \<open>a\<close>.\<close>

lemma length_close:
  assumes "\<bar>x - r * cos a\<bar> \<le> t" "\<bar>y - r * sin a\<bar> \<le> t"
  shows "\<bar>sqrt (x * x + y * y) - \<bar>r\<bar>\<bar> \<le> 2 * t"
proof -
  let ?p = "Complex x y" and ?q = "Complex (r * cos a) (r * sin a)"
  have np: "cmod ?p = sqrt (x * x + y * y)" by (simp add: cmod_def power2_eq_square)
  have "(r * cos a) * (r * cos a) + (r * sin a) * (r * sin a)
          = r * r * (cos a * cos a + sin a * sin a)" by (simp only: algebra_simps)
  also have "\<dots> = r * r" by (simp only: sin_cos_squared_add3 mult_1_right)
  finally have "sqrt ((r * cos a) * (r * cos a) + (r * sin a) * (r * sin a)) = \<bar>r\<bar>" by simp
  then have nq: "cmod ?q = \<bar>r\<bar>" by (simp add: cmod_def power2_eq_square)
  have "\<bar>cmod ?p - cmod ?q\<bar> \<le> cmod (?p - ?q)" by (rule norm_triangle_ineq3)
  also have "cmod (?p - ?q) \<le> \<bar>Re (?p - ?q)\<bar> + \<bar>Im (?p - ?q)\<bar>" by (rule cmod_le)
  also have "\<dots> \<le> 2 * t" using assms by simp
  finally show ?thesis by (simp only: np nq)
qed

section \<open>The throttler\<close>

text \<open>
  Claim C1. In every state the controller can reach, \<open>sendCommandThrottled\<close> accepts a
  command \<open>cmd\<close> at time \<open>now\<close> exactly when \<open>cmd\<close> differs from \<open>lastCommand\<close> or
  \<open>now - lastCommandTime\<close> exceeds 100 ms. On acceptance it calls \<open>sendCommand\<close> (which
  writes the command on an Active link) and records \<open>cmd\<close> and \<open>now\<close>; otherwise it
  changes nothing. Hence, after an accepted command, the same command at most 100 ms
  later is not accepted, and a command that differs from the last one is accepted at any
  time.
\<close>

theorem throttler_policy:
  "reachable s \<Longrightarrow>
     (throttleAccepts cmd now s \<longleftrightarrow> cmd \<noteq> lastCommand s \<or> now - lastCommandTime s > 100)
   \<and> sendCommandThrottled w now cmd s
       = (if throttleAccepts cmd now s
          then (sendCommand w cmd s)\<lparr> lastCommand := cmd, lastCommandTime := now \<rparr>
          else s)
   \<and> writes (sendCommandThrottled w now cmd s)
       = (if throttleAccepts cmd now s \<and> Active s then writes s @ [(cmd, w)] else writes s)
   \<and> (throttleAccepts cmd now s \<longrightarrow> now' - now \<le> 100 \<longrightarrow>
        \<not> throttleAccepts cmd now' (sendCommandThrottled w now cmd s))
   \<and> (cmd \<noteq> lastCommand s \<longrightarrow> throttleAccepts cmd now s)"
proof -
  assume r: "reachable s"
  have d: "commandDelay s = 100" by (rule reachable_commandDelay [OF r])
  have a: "throttleAccepts cmd now s \<longleftrightarrow> cmd \<noteq> lastCommand s \<or> now - lastCommandTime s > 100"
    by (simp add: throttleAccepts_def d)
  have b: "sendCommandThrottled w now cmd s
       = (if throttleAccepts cmd now s
          then (sendCommand w cmd s)\<lparr> lastCommand := cmd, lastCommandTime := now \<rparr>
          else s)"
    by (simp add: sendCommandThrottled_def)
  have c: "throttleAccepts cmd now s \<longrightarrow> now' - now \<le> 100 \<longrightarrow>
        \<not> throttleAccepts cmd now' (sendCommandThrottled w now cmd s)"
    by (simp add: sendCommandThrottled_def throttleAccepts_def sendCommand_frame d)
  have g: "cmd \<noteq> lastCommand s \<longrightarrow> throttleAccepts cmd now s"
    by (simp add: throttleAccepts_def)
  show ?thesis
    by (intro conjI a b c g sendCommandThrottled_writes)
qed

theorem throttler_policy_witness:
  "reachable exampleActive
   \<and> throttleAccepts ''F'' 1000 exampleActive
   \<and> (1100::int) - 1000 \<le> 100
   \<and> ''F'' \<noteq> lastCommand exampleActive
   \<and> writes (sendCommandThrottled WriteOk 1000 ''F'' exampleActive) = [(''F'', WriteOk)]
   \<and> \<not> throttleAccepts ''F'' 1100 (sendCommandThrottled WriteOk 1000 ''F'' exampleActive)"
proof -
  have a: "throttleAccepts ''F'' 1000 exampleActive"
    by (simp add: throttleAccepts_def exampleActive_eq)
  have i: "(1100::int) - 1000 \<le> 100" by simp
  have n: "''F'' \<noteq> lastCommand exampleActive" by (simp add: exampleActive_eq)
  have w: "writes exampleActive = []" by (simp add: exampleActive_eq)
  note t = throttler_policy [OF exampleActive_reachable, of "''F''" 1000 WriteOk 1100]
  from t a i have 1: "\<not> throttleAccepts ''F'' 1100 (sendCommandThrottled WriteOk 1000 ''F'' exampleActive)"
    by blast
  from t have "writes (sendCommandThrottled WriteOk 1000 ''F'' exampleActive)
       = (if throttleAccepts ''F'' 1000 exampleActive \<and> Active exampleActive
          then writes exampleActive @ [(''F'', WriteOk)] else writes exampleActive)"
    by blast
  then have 2: "writes (sendCommandThrottled WriteOk 1000 ''F'' exampleActive) = [(''F'', WriteOk)]"
    by (simp add: a exampleActive_Active w)
  from exampleActive_reachable a i n 1 2 show ?thesis by blast
qed

text \<open>
  Claim C10. The throttle state, the pair of \<open>lastCommand\<close> and \<open>lastCommandTime\<close>, is
  left as it is by the sends that bypass the throttler (joystick release, emergency stop,
  arrow buttons, speed slider), by \<open>connect\<close>, by \<open>onDisconnected\<close>, by \<open>disconnect\<close> and by
  the loss of the link, so it survives a disconnect followed by a reconnect. A call of
  \<open>sendCommandThrottled\<close> changes it exactly when it accepts, and then also when the link
  is not Active and the send wrote nothing. An event that changes the throttle state is a
  joystick move, on an active joystick, whose command the throttler accepts.
\<close>

theorem throttle_state_frame:
  "throttleState (resetJoystick w s) = throttleState s
   \<and> throttleState (emergencyStop w s) = throttleState s
   \<and> throttleState (arrowButton w cmd s) = throttleState s
   \<and> throttleState (speedSliderInput w p s) = throttleState s
   \<and> throttleState (connect oc t s) = throttleState s
   \<and> throttleState (onDisconnected s) = throttleState s
   \<and> throttleState (disconnect w s) = throttleState s
   \<and> throttleState (linkLost s) = throttleState s
   \<and> throttleState (connect oc t (disconnect w s)) = throttleState s
   \<and> throttleState (sendCommandThrottled w now cmd s)
       = (if throttleAccepts cmd now s then (cmd, now) else throttleState s)
   \<and> (throttleAccepts cmd now s \<and> \<not> Active s \<longrightarrow>
        sendCommandThrottled w now cmd s
          = s\<lparr> console := console s @ [WarnNotConnected], lastCommand := cmd, lastCommandTime := now \<rparr>
        \<and> writes (sendCommandThrottled w now cmd s) = writes s)
   \<and> (throttleState (step e s) \<noteq> throttleState s \<longrightarrow>
        (\<exists>m x y now w. e = JoystickMove m x y now w \<and> joystickActive s \<and>
           throttleAccepts (joystickMoveCommand m (maxRadius s) (fl (x - fst (joystickCenter s)))
                              (fl (y - snd (joystickCenter s)))) now s))"
proof -
  have a: "throttleAccepts cmd now s \<and> \<not> Active s \<longrightarrow>
        sendCommandThrottled w now cmd s
          = s\<lparr> console := console s @ [WarnNotConnected], lastCommand := cmd, lastCommandTime := now \<rparr>
        \<and> writes (sendCommandThrottled w now cmd s) = writes s"
    by (simp add: sendCommandThrottled_def sendCommand_inactive)
  have b: "throttleState (step e s) \<noteq> throttleState s \<longrightarrow>
        (\<exists>m x y now w. e = JoystickMove m x y now w \<and> joystickActive s \<and>
           throttleAccepts (joystickMoveCommand m (maxRadius s) (fl (x - fst (joystickCenter s)))
                              (fl (y - snd (joystickCenter s)))) now s)"
    using step_changes_throttleState by blast
  have c: "throttleState (sendCommandThrottled w now cmd s)
       = (if throttleAccepts cmd now s then (cmd, now) else throttleState s)"
    by (simp add: throttleState_rejected throttleState_accepted)
  have e: "throttleState (connect oc t (disconnect w s)) = throttleState s"
    by (simp add: throttleState_link)
  show ?thesis
    by (intro conjI throttleState_unthrottled throttleState_link e c a b)
qed

theorem throttle_state_frame_witness:
  "throttleAccepts ''F'' 1000 exampleIdle
   \<and> \<not> Active exampleIdle
   \<and> throttleState exampleIdle = ('''', 0)
   \<and> throttleState (sendCommandThrottled WriteOk 1000 ''F'' exampleIdle) = (''F'', 1000)
   \<and> writes (sendCommandThrottled WriteOk 1000 ''F'' exampleIdle) = []
   \<and> throttleState (step (JoystickMove engineMath 230 130 1000 WriteOk) (step (JoystickStart exampleRect) exampleIdle))
       \<noteq> throttleState (step (JoystickStart exampleRect) exampleIdle)
   \<and> joystickActive (step (JoystickStart exampleRect) exampleIdle)"
proof -
  let ?s = "step (JoystickStart exampleRect) exampleIdle"
  have a: "throttleAccepts ''F'' 1000 exampleIdle"
    by (simp add: throttleAccepts_def exampleIdle_eq)
  have n: "\<not> Active exampleIdle" by (simp add: Active_def exampleIdle_eq)
  have i: "throttleState exampleIdle = ('''', 0)" by (simp add: throttleState_def exampleIdle_eq)
  have w: "writes exampleIdle = []" by (simp add: exampleIdle_eq)
  note t = throttle_state_frame [of WriteOk exampleIdle "''F''" 0 RequestDeviceRejected 0 1000]
  from t a have 1: "throttleState (sendCommandThrottled WriteOk 1000 ''F'' exampleIdle) = (''F'', 1000)"
    by simp
  from t a n have "writes (sendCommandThrottled WriteOk 1000 ''F'' exampleIdle) = writes exampleIdle"
    by blast
  then have 2: "writes (sendCommandThrottled WriteOk 1000 ''F'' exampleIdle) = []" by (simp add: w)
  have j: "joystickActive ?s" by (simp add: updateCenter_def)
  have l: "lastCommand ?s = ''''" "lastCommandTime ?s = 0"
    by (simp_all add: updateCenter_def exampleIdle_eq)
  have "throttleState (step (JoystickMove engineMath 230 130 1000 WriteOk) ?s) \<noteq> throttleState ?s"
  proof
    assume eq: "throttleState (step (JoystickMove engineMath 230 130 1000 WriteOk) ?s) = throttleState ?s"
    have "snd (throttleState (step (JoystickMove engineMath 230 130 1000 WriteOk) ?s)) = 1000"
      using j l
      by (simp add: handleJoystickMove_def Let_def throttleState_def sendCommandThrottled_def
            throttleAccepts_def joystickMoveCommand_nonempty del: step.simps(7))
    moreover have "snd (throttleState ?s) = 0" using l by (simp add: throttleState_def)
    ultimately show False using eq by simp
  qed
  moreover from throttle_state_frame [of _ ?s _ _ _ _ _ "JoystickMove engineMath 230 130 1000 WriteOk"]
  have "throttleState (step (JoystickMove engineMath 230 130 1000 WriteOk) ?s) \<noteq> throttleState ?s \<longrightarrow>
        joystickActive ?s" by blast
  ultimately show ?thesis using a n i 1 2 by blast
qed

section \<open>Sending\<close>

text \<open>
  Claim C7. When the link is not Active (the controller is not connected or has no
  characteristic), \<open>sendCommand\<close> returns normally with a "not connected" warning on the
  console and nothing else: no call of \<open>writeValue\<close>, and \<open>commandCount\<close>, the direction
  and the connection fields as they were.
\<close>

theorem send_outside_active_is_noop:
  "\<not> Active s \<Longrightarrow>
     sendCommand w cmd s = s\<lparr> console := console s @ [WarnNotConnected] \<rparr>
   \<and> writes (sendCommand w cmd s) = writes s
   \<and> commandCount (sendCommand w cmd s) = commandCount s
   \<and> currentDirection (sendCommand w cmd s) = currentDirection s
   \<and> isConnected (sendCommand w cmd s) = isConnected s
   \<and> device (sendCommand w cmd s) = device s
   \<and> characteristic (sendCommand w cmd s) = characteristic s
   \<and> connectionStartTime (sendCommand w cmd s) = connectionStartTime s"
  by (simp add: sendCommand_inactive)

theorem send_outside_active_is_noop_witness:
  "\<not> Active exampleIdle
   \<and> sendCommand WriteOk ''F'' exampleIdle = exampleIdle\<lparr> console := [WarnNotConnected] \<rparr>
   \<and> writes (sendCommand WriteOk ''F'' exampleIdle) = []"
proof -
  have n: "\<not> Active exampleIdle" by (simp add: Active_def exampleIdle_eq)
  have c: "console exampleIdle = []" and w: "writes exampleIdle = []"
    by (simp_all add: exampleIdle_eq)
  from send_outside_active_is_noop [OF n, of WriteOk "''F''"] n show ?thesis
    by (simp add: c w)
qed

text \<open>
  Claim C8. When \<open>writeValue\<close> rejects on an Active link, \<open>sendCommand\<close> catches the
  error and returns normally: the one failed write and the error message are recorded,
  nothing is written again or kept for later, the link stays Active with the same
  \<open>isConnected\<close>, \<open>device\<close> and \<open>characteristic\<close>, and \<open>commandCount\<close> and the direction
  are as they were.
\<close>

theorem write_failure_recovered_locally:
  "Active s \<Longrightarrow>
     sendCommand WriteRejected cmd s
       = s\<lparr> writes := writes s @ [(cmd, WriteRejected)],
            console := console s @ [ErrorSendFailed WriteFailed] \<rparr>
   \<and> Active (sendCommand WriteRejected cmd s)
   \<and> isConnected (sendCommand WriteRejected cmd s) = isConnected s
   \<and> device (sendCommand WriteRejected cmd s) = device s
   \<and> characteristic (sendCommand WriteRejected cmd s) = characteristic s
   \<and> commandCount (sendCommand WriteRejected cmd s) = commandCount s
   \<and> currentDirection (sendCommand WriteRejected cmd s) = currentDirection s"
  by (simp add: sendCommand_def Active_def sendCommand_try_def writeValue_def)

theorem write_failure_recovered_locally_witness:
  "Active exampleActive
   \<and> Active (sendCommand WriteRejected ''F'' exampleActive)
   \<and> commandCount (sendCommand WriteRejected ''F'' exampleActive) = 0
   \<and> currentDirection (sendCommand WriteRejected ''F'' exampleActive) = ''STOP''
   \<and> writes (sendCommand WriteRejected ''F'' exampleActive) = [(''F'', WriteRejected)]"
proof -
  have c: "commandCount exampleActive = 0" "currentDirection exampleActive = ''STOP''"
    "writes exampleActive = []"
    by (simp_all add: exampleActive_eq)
  note t = write_failure_recovered_locally [OF exampleActive_Active, of "''F''"]
  from t have "writes (sendCommand WriteRejected ''F'' exampleActive)
                 = writes (exampleActive\<lparr> writes := writes exampleActive @ [(''F'', WriteRejected)],
                      console := console exampleActive @ [ErrorSendFailed WriteFailed] \<rparr>)"
    by simp
  then have w: "writes (sendCommand WriteRejected ''F'' exampleActive) = [(''F'', WriteRejected)]"
    by (simp add: c)
  from t have a: "Active (sendCommand WriteRejected ''F'' exampleActive)" by blast
  from t have n: "commandCount (sendCommand WriteRejected ''F'' exampleActive)
                    = commandCount exampleActive" by blast
  from t have d: "currentDirection (sendCommand WriteRejected ''F'' exampleActive)
                    = currentDirection exampleActive" by blast
  show ?thesis by (simp add: a n d c w exampleActive_Active)
qed

section \<open>Which inputs are throttled\<close>

text \<open>
  Claim C2 says that the commands of all three input methods pass through the throttler,
  and that two speed commands with the same value inside the minimum interval are not
  both transmitted. The handlers of the arrow buttons and of the speed slider call
  \<open>sendCommand\<close> directly: on an Active link the same slider value, entered twice in a row,
  is written twice.
\<close>

theorem same_speed_twice_counterexample:
  "writes (step (SpeedInput 50 WriteOk) (step (SpeedInput 50 WriteOk) exampleActive))
     = [(''SPEED:128'', WriteOk), (''SPEED:128'', WriteOk)]"
  by (simp add: speedSliderInput_writes speedSliderInput_Active exampleActive_Active
        speedByte_50 Number_toString_def decimal.simps digit_char_def)
     (simp add: exampleActive_eq)

text \<open>
  Claim C2, amended. Only the commands of joystick movement pass through the throttler:
  \<open>handleJoystickMove\<close> hands its command to \<open>sendCommandThrottled\<close>, and writes it
  exactly when the throttler accepts and the link is Active. An arrow button and the
  speed slider write their command on every input while the link is Active, so two
  speed commands with the same value are both written, however close together.
\<close>

theorem only_joystick_moves_are_throttled:
  "writes (arrowButton w cmd s) = (if Active s then writes s @ [(cmd, w)] else writes s)
   \<and> writes (speedSliderInput w p s)
       = (if Active s then writes s @ [(''SPEED:'' @ Number_toString (speedByte p), w)] else writes s)
   \<and> writes (speedSliderInput w' p (speedSliderInput w p s))
       = (if Active s
          then writes s @ [(''SPEED:'' @ Number_toString (speedByte p), w),
                           (''SPEED:'' @ Number_toString (speedByte p), w')]
          else writes s)
   \<and> handleJoystickMove m w now x y s
       = sendCommandThrottled w now
           (joystickMoveCommand m (maxRadius s) (fl (x - fst (joystickCenter s))) (fl (y - snd (joystickCenter s))))
           (s\<lparr> knob := clampToRadius m (maxRadius s) (fl (x - fst (joystickCenter s)))
                          (fl (y - snd (joystickCenter s))) \<rparr>)
   \<and> writes (handleJoystickMove m w now x y s)
       = (if throttleAccepts
               (joystickMoveCommand m (maxRadius s) (fl (x - fst (joystickCenter s))) (fl (y - snd (joystickCenter s))))
               now s \<and> Active s
          then writes s @
               [(joystickMoveCommand m (maxRadius s) (fl (x - fst (joystickCenter s))) (fl (y - snd (joystickCenter s))), w)]
          else writes s)"
proof -
  have a: "writes (arrowButton w cmd s) = (if Active s then writes s @ [(cmd, w)] else writes s)"
    by (simp add: arrowButton_def sendCommand_writes sendCommand_inactive)
  have b: "writes (speedSliderInput w' p (speedSliderInput w p s))
       = (if Active s
          then writes s @ [(''SPEED:'' @ Number_toString (speedByte p), w),
                           (''SPEED:'' @ Number_toString (speedByte p), w')]
          else writes s)"
    by (simp add: speedSliderInput_writes speedSliderInput_Active)
  have c: "handleJoystickMove m w now x y s
       = sendCommandThrottled w now
           (joystickMoveCommand m (maxRadius s) (fl (x - fst (joystickCenter s))) (fl (y - snd (joystickCenter s))))
           (s\<lparr> knob := clampToRadius m (maxRadius s) (fl (x - fst (joystickCenter s)))
                          (fl (y - snd (joystickCenter s))) \<rparr>)"
    by (simp add: handleJoystickMove_def Let_def)
  have d: "writes (handleJoystickMove m w now x y s)
       = (if throttleAccepts
               (joystickMoveCommand m (maxRadius s) (fl (x - fst (joystickCenter s))) (fl (y - snd (joystickCenter s))))
               now s \<and> Active s
          then writes s @
               [(joystickMoveCommand m (maxRadius s) (fl (x - fst (joystickCenter s))) (fl (y - snd (joystickCenter s))), w)]
          else writes s)"
    by (simp add: c sendCommandThrottled_writes)
  show ?thesis
    by (intro conjI a b c d speedSliderInput_writes)
qed

theorem only_joystick_moves_are_throttled_witness:
  "Active exampleActive
   \<and> writes (arrowButton WriteOk ''F'' exampleActive) = [(''F'', WriteOk)]
   \<and> writes (arrowButton WriteOk ''F'' (arrowButton WriteOk ''F'' exampleActive))
       = [(''F'', WriteOk), (''F'', WriteOk)]"
proof -
  have e: "writes exampleActive = []" by (simp add: exampleActive_eq)
  have a: "Active (arrowButton WriteOk ''F'' exampleActive)"
    by (simp add: arrowButton_def sendCommand_Active exampleActive_Active)
  from only_joystick_moves_are_throttled [where s = exampleActive and w = WriteOk and cmd = "''F''"]
  have 1: "writes (arrowButton WriteOk ''F'' exampleActive)
             = (if Active exampleActive then writes exampleActive @ [(''F'', WriteOk)]
                else writes exampleActive)" by blast
  from only_joystick_moves_are_throttled
         [where s = "arrowButton WriteOk ''F'' exampleActive" and w = WriteOk and cmd = "''F''"]
  have 2: "writes (arrowButton WriteOk ''F'' (arrowButton WriteOk ''F'' exampleActive))
             = (if Active (arrowButton WriteOk ''F'' exampleActive)
                then writes (arrowButton WriteOk ''F'' exampleActive) @ [(''F'', WriteOk)]
                else writes (arrowButton WriteOk ''F'' exampleActive))" by blast
  have 3: "writes (arrowButton WriteOk ''F'' exampleActive) = [(''F'', WriteOk)]"
    by (simp add: 1 e exampleActive_Active)
  have 4: "writes (arrowButton WriteOk ''F'' (arrowButton WriteOk ''F'' exampleActive))
       = [(''F'', WriteOk), (''F'', WriteOk)]"
    by (simp add: 2 3 a)
  from exampleActive_Active 3 4 show ?thesis by blast
qed

section \<open>Leaving the Active state\<close>

text \<open>
  Claim C4 says that every transition from Active to Disconnected, by \<open>disconnect\<close> or by
  loss of the link, sends one Stop before the teardown. When the link is lost, the
  listener for \<open>gattserverdisconnected\<close> runs \<open>onDisconnected\<close> only: the controller
  leaves the Active state and nothing is written.
\<close>

theorem link_loss_sends_no_stop_counterexample:
  "Active exampleActive
   \<and> \<not> Active (step LinkLost exampleActive)
   \<and> device (step LinkLost exampleActive) = None
   \<and> writes (step LinkLost exampleActive) = writes exampleActive"
proof -
  have d: "device exampleActive = Some \<lparr> gatt_connected = True, disconnect_listeners = 1 \<rparr>"
    by (simp add: exampleActive_eq)
  have "linkLost exampleActive
     = (onDisconnected exampleActive)\<lparr> console := console exampleActive
                     @ replicate 1 LogDeviceDisconnected \<rparr>"
    using linkLost_active [OF d] by simp
  then show ?thesis
    by (simp add: exampleActive_Active onDisconnected_result onDisconnected_frame)
qed

text \<open>
  Claim C4, amended. From an Active state whose device is connected and carries the
  listener registered by \<open>connect\<close>: \<open>disconnect\<close> performs exactly one write, of the Stop
  command, whose rejection is caught and only logged, and ends in the state that
  \<open>onDisconnected\<close> produces; the loss of the link performs no write and ends in the
  state that \<open>onDisconnected\<close> produces. The two results differ only in the recorded
  writes and console messages.
\<close>

theorem teardown_paths:
  "Active s \<Longrightarrow> device s = Some d \<Longrightarrow> gatt_connected d \<Longrightarrow> 0 < disconnect_listeners d \<Longrightarrow>
     writes (disconnect w s) = writes s @ [(''S'', w)]
   \<and> disconnect w s
       = (onDisconnected s)\<lparr> writes := writes s @ [(''S'', w)],
            console := console (sendCommand w ''S'' s)
                       @ replicate (disconnect_listeners d) LogDeviceDisconnected \<rparr>
   \<and> writes (linkLost s) = writes s
   \<and> linkLost s
       = (onDisconnected s)\<lparr> console := console s
                       @ replicate (disconnect_listeners d) LogDeviceDisconnected \<rparr>
   \<and> \<not> Active (disconnect w s)
   \<and> \<not> Active (linkLost s)"
proof -
  assume a: "Active s" and d: "device s = Some d" "gatt_connected d" "0 < disconnect_listeners d"
  have 1: "disconnect w s
       = (onDisconnected s)\<lparr> writes := writes s @ [(''S'', w)],
            console := console (sendCommand w ''S'' s)
                       @ replicate (disconnect_listeners d) LogDeviceDisconnected \<rparr>"
    using disconnect_active [OF d, of w] by (simp add: sendCommand_writes [OF a])
  have 2: "linkLost s
       = (onDisconnected s)\<lparr> console := console s
                       @ replicate (disconnect_listeners d) LogDeviceDisconnected \<rparr>"
    by (rule linkLost_active [OF d])
  have 3: "writes (disconnect w s) = writes s @ [(''S'', w)]"
    by (simp add: 1)
  have 4: "writes (linkLost s) = writes s"
    by (simp add: linkLost_frame)
  have 5: "\<not> Active (disconnect w s)" by (simp add: 1)
  have 6: "\<not> Active (linkLost s)" by (simp add: 2)
  from 1 2 3 4 5 6 show ?thesis by blast
qed

theorem teardown_paths_witness:
  "Active exampleActive
   \<and> device exampleActive = Some \<lparr> gatt_connected = True, disconnect_listeners = 1 \<rparr>
   \<and> writes (disconnect WriteRejected exampleActive) = [(''S'', WriteRejected)]
   \<and> writes (linkLost exampleActive) = []
   \<and> \<not> Active (disconnect WriteRejected exampleActive)
   \<and> \<not> Active (linkLost exampleActive)"
proof -
  have d: "device exampleActive = Some \<lparr> gatt_connected = True, disconnect_listeners = 1 \<rparr>"
    by (simp add: exampleActive_eq)
  have w: "writes exampleActive = []" by (simp add: exampleActive_eq)
  have g: "gatt_connected \<lparr> gatt_connected = True, disconnect_listeners = 1 \<rparr>" by simp
  have l: "0 < disconnect_listeners \<lparr> gatt_connected = True, disconnect_listeners = 1 \<rparr>" by simp
  note t = teardown_paths [OF exampleActive_Active d g l, of WriteRejected]
  from t have 1: "writes (disconnect WriteRejected exampleActive)
                    = writes exampleActive @ [(''S'', WriteRejected)]" by blast
  from t have 2: "writes (linkLost exampleActive) = writes exampleActive" by blast
  from t have 3: "\<not> Active (disconnect WriteRejected exampleActive)" by blast
  from t have 4: "\<not> Active (linkLost exampleActive)" by blast
  show ?thesis by (simp add: 1 2 3 4 d w exampleActive_Active)
qed

section \<open>Session statistics\<close>

text \<open>
  Claim C5 says that every transition into Disconnected resets \<open>commandCount\<close> to 0 and
  the connection start time to none. \<open>onDisconnected\<close> resets \<open>commandCount\<close> and leaves
  \<open>connectionStartTime\<close> as it is: after a connect at time 1000 and a disconnect, the
  start time is still 1000.
\<close>

theorem start_time_kept_counterexample:
  "\<not> isConnected (step (ClickDisconnect WriteOk) exampleActive)
   \<and> commandCount (step (ClickDisconnect WriteOk) exampleActive) = 0
   \<and> connectionStartTime (step (ClickDisconnect WriteOk) exampleActive) = Some 1000"
  by (simp add: disconnect_result disconnect_frame) (simp add: exampleActive_eq)

text \<open>
  Claim C5, amended. Every way into the Disconnected state (\<open>onDisconnected\<close> itself,
  \<open>disconnect\<close>, the loss of the link) sets \<open>commandCount\<close> to 0 and keeps
  \<open>connectionStartTime\<close>. A \<open>connect\<close> that succeeds sets \<open>isConnected\<close> and records the
  start time; no \<open>connect\<close> assigns \<open>commandCount\<close>, which keeps the value it had.
\<close>

theorem session_stats_reset:
  "commandCount (onDisconnected s) = 0
   \<and> connectionStartTime (onDisconnected s) = connectionStartTime s
   \<and> commandCount (disconnect w s) = 0
   \<and> connectionStartTime (disconnect w s) = connectionStartTime s
   \<and> (device s = Some d' \<and> gatt_connected d' \<and> 0 < disconnect_listeners d' \<longrightarrow>
        \<not> isConnected (linkLost s)
      \<and> commandCount (linkLost s) = 0
      \<and> connectionStartTime (linkLost s) = connectionStartTime s)
   \<and> isConnected (connect (ConnectResolved d c) now s)
   \<and> connectionStartTime (connect (ConnectResolved d c) now s) = Some now
   \<and> commandCount (connect oc now s) = commandCount s"
proof -
  have b: "device s = Some d' \<and> gatt_connected d' \<and> 0 < disconnect_listeners d' \<longrightarrow>
        \<not> isConnected (linkLost s)
      \<and> commandCount (linkLost s) = 0
      \<and> connectionStartTime (linkLost s) = connectionStartTime s"
    by (simp add: linkLost_active onDisconnected_result onDisconnected_frame)
  show ?thesis
    by (intro conjI b)
       (simp_all add: onDisconnected_result onDisconnected_frame disconnect_result disconnect_frame
          connect_resolved connect_frame)
qed

theorem session_stats_reset_witness:
  "device exampleActive = Some \<lparr> gatt_connected = True, disconnect_listeners = 1 \<rparr>
   \<and> \<not> isConnected (linkLost exampleActive)
   \<and> commandCount (linkLost exampleActive) = 0
   \<and> connectionStartTime (linkLost exampleActive) = Some 1000
   \<and> isConnected (connect (ConnectResolved exampleDevice 7) 1000 exampleIdle)
   \<and> connectionStartTime (connect (ConnectResolved exampleDevice 7) 1000 exampleIdle) = Some 1000
   \<and> commandCount (connect (ConnectResolved exampleDevice 7) 1000 exampleIdle) = 0"
proof -
  have d: "device exampleActive = Some \<lparr> gatt_connected = True, disconnect_listeners = 1 \<rparr>"
    by (simp add: exampleActive_eq)
  have t: "connectionStartTime exampleActive = Some 1000" by (simp add: exampleActive_eq)
  have z: "commandCount exampleIdle = 0" by (simp add: exampleIdle_eq)
  have g: "gatt_connected \<lparr> gatt_connected = True, disconnect_listeners = 1 \<rparr>" by simp
  have l: "0 < disconnect_listeners \<lparr> gatt_connected = True, disconnect_listeners = 1 \<rparr>" by simp
  from session_stats_reset
         [of exampleActive WriteOk "\<lparr> gatt_connected = True, disconnect_listeners = 1 \<rparr>"] d g l
  have 1: "\<not> isConnected (linkLost exampleActive)
      \<and> commandCount (linkLost exampleActive) = 0
      \<and> connectionStartTime (linkLost exampleActive) = connectionStartTime exampleActive"
    by blast
  from session_stats_reset [of exampleIdle WriteOk _ exampleDevice 7 1000 "ConnectResolved exampleDevice 7"]
  have 2: "isConnected (connect (ConnectResolved exampleDevice 7) 1000 exampleIdle)
      \<and> connectionStartTime (connect (ConnectResolved exampleDevice 7) 1000 exampleIdle) = Some 1000
      \<and> commandCount (connect (ConnectResolved exampleDevice 7) 1000 exampleIdle)
          = commandCount exampleIdle"
    by blast
  from 1 2 d t z show ?thesis by simp
qed

text \<open>
  The counter on entering Active is 0 only while the continuation of every write has run
  before the link went down. \<open>sendCommand\<close> does not guard its continuation: when a write
  made on the Active link settles after \<open>onDisconnected\<close> has run, the counter is 1 in the
  Disconnected state, and the next \<open>connect\<close> enters Active with 1. With the event
  \<open>WriteSettled\<close> that state is a reachable one.
\<close>

lemma sendCommand_split:
  "Active s \<Longrightarrow>
     sendCommand w cmd s = sendCommand_resume w cmd (s\<lparr> writes := writes s @ [(cmd, w)] \<rparr>)"
  by (auto simp add: sendCommand_def Active_def sendCommand_try_def writeValue_def
        sendCommand_resume_def Let_def split: write_result.split)

lemma late_write_counts_after_disconnect:
  "\<not> isConnected (sendCommand_resume WriteOk cmd (onDisconnected s))
   \<and> commandCount (sendCommand_resume WriteOk cmd (onDisconnected s)) = 1
   \<and> isConnected (connect (ConnectResolved d c) now
        (sendCommand_resume WriteOk cmd (onDisconnected s)))
   \<and> commandCount (connect (ConnectResolved d c) now
        (sendCommand_resume WriteOk cmd (onDisconnected s))) = 1"
  by (simp add: connect_resolved sendCommand_resume_def updateDirection_def Let_def
        onDisconnected_result)

lemma late_write_reachable:
  "reachable (step (WriteSettled WriteOk ''F'') (step LinkLost exampleActive))
   \<and> \<not> isConnected (step (WriteSettled WriteOk ''F'') (step LinkLost exampleActive))
   \<and> commandCount (step (WriteSettled WriteOk ''F'') (step LinkLost exampleActive)) = 1"
proof -
  have "reachable (step (WriteSettled WriteOk ''F'') (step LinkLost exampleActive))"
    by (intro reachable_step exampleActive_reachable)
  moreover have "\<exists>d. device exampleActive = Some d \<and> gatt_connected d \<and> 0 < disconnect_listeners d"
    by (simp add: exampleActive_eq)
  then obtain d where d: "device exampleActive = Some d" "gatt_connected d" "0 < disconnect_listeners d"
    by blast
  have "step LinkLost exampleActive
      = (onDisconnected exampleActive)\<lparr> console := console exampleActive
                     @ replicate (disconnect_listeners d) LogDeviceDisconnected \<rparr>"
    using linkLost_active [OF d] by simp
  ultimately show ?thesis
    by (simp add: sendCommand_resume_def updateDirection_def Let_def onDisconnected_result)
qed

section \<open>The speed slider\<close>




section \<open>The joystick\<close>




text \<open>
  Claim C9 says that a vector longer than \<open>maxRadius\<close> is clamped to a vector of length
  \<open>maxRadius\<close>, within floating-point tolerance, with the same angle as the input. For the
  displacement \<open>(100, 100)\<close> and \<open>maxRadius\<close> 100, with a \<open>Math\<close> library that rounds
  correctly, the two coordinates of the clamped vector differ, so its angle is below that
  of the input, both as \<open>Math.atan2\<close> computes it and exactly.
\<close>

theorem clamped_angle_counterexample:
  "100 < distance engineMath 100 100
   \<and> clampToRadius engineMath 100 100 100
       = (621977702395095 / 2 ^ 43, 4975821619160759 / 2 ^ 46)
   \<and> Math_atan2 engineMath (4975821619160759 / 2 ^ 46) (621977702395095 / 2 ^ 43)
       < Math_atan2 engineMath 100 100
   \<and> atan2 (4975821619160759 / 2 ^ 46) (621977702395095 / 2 ^ 43) < atan2 100 100"
proof -
  have d: "100 < distance engineMath 100 100" by (simp add: diagonal_distance)
  have m: "Math_atan2 engineMath (4975821619160759 / 2 ^ 46) (621977702395095 / 2 ^ 43)
       < Math_atan2 engineMath 100 100"
    by (simp only: engineMath_diagonal) simp
  have "arctan (4975821619160759 / 2 ^ 46 / (621977702395095 / 2 ^ 43)) < arctan (100 / 100)"
    by (simp only: arctan_less_iff) simp
  then have x: "atan2 (4975821619160759 / 2 ^ 46) (621977702395095 / 2 ^ 43) < atan2 100 100"
    by (simp add: atan2_def)
  from d diagonal_clamped m x show ?thesis by blast
qed

text \<open>
  Claim C9, amended. A displacement whose computed length does not exceed \<open>maxRadius\<close> is
  kept. A longer one is replaced by the rounded products of \<open>maxRadius\<close> with the cosine
  and the sine that the library returns for the computed angle \<open>a\<close> of the displacement.
  When these are within \<open>2 powr - 52\<close> of the exact cosine and sine, each coordinate of
  the result is within \<open>clampTolerance maxRadius\<close> of the point at distance
  \<open>maxRadius\<close> in direction \<open>a\<close>, and its length is within twice that of
  \<open>\<bar>maxRadius\<bar>\<close>. The result is the offset that \<open>handleJoystickMove\<close> gives the knob. The
  angle recomputed from the result need not be \<open>a\<close>.
\<close>

theorem clamp_to_max_radius:
  "(distance m dx dy \<le> maxR \<longrightarrow> clampToRadius m maxR dx dy = (dx, dy))
   \<and> (maxR < distance m dx dy \<longrightarrow>
        clampToRadius m maxR dx dy
          = (fl (Math_cos m (Math_atan2 m dy dx) * maxR),
             fl (Math_sin m (Math_atan2 m dy dx) * maxR)))
   \<and> (maxR < distance m dx dy
        \<and> \<bar>Math_cos m (Math_atan2 m dy dx) - cos (Math_atan2 m dy dx)\<bar> \<le> 2 powr (- 52)
        \<and> \<bar>Math_sin m (Math_atan2 m dy dx) - sin (Math_atan2 m dy dx)\<bar> \<le> 2 powr (- 52) \<longrightarrow>
        \<bar>fst (clampToRadius m maxR dx dy) - maxR * cos (Math_atan2 m dy dx)\<bar>
          \<le> clampTolerance maxR
      \<and> \<bar>snd (clampToRadius m maxR dx dy) - maxR * sin (Math_atan2 m dy dx)\<bar>
          \<le> clampTolerance maxR
      \<and> \<bar>sqrt (fst (clampToRadius m maxR dx dy) * fst (clampToRadius m maxR dx dy)
               + snd (clampToRadius m maxR dx dy) * snd (clampToRadius m maxR dx dy))
           - \<bar>maxR\<bar>\<bar> \<le> 2 * clampTolerance maxR)
   \<and> knob (handleJoystickMove m w now x y s)
       = clampToRadius m (maxRadius s) (fl (x - fst (joystickCenter s)))
           (fl (y - snd (joystickCenter s)))"
proof -
  let ?a = "Math_atan2 m dy dx"
  have i: "distance m dx dy \<le> maxR \<longrightarrow> clampToRadius m maxR dx dy = (dx, dy)"
    by (simp add: clampToRadius_inside)
  have o: "maxR < distance m dx dy \<longrightarrow>
        clampToRadius m maxR dx dy = (fl (Math_cos m ?a * maxR), fl (Math_sin m ?a * maxR))"
    by (simp add: clampToRadius_outside)
  have t: "maxR < distance m dx dy
        \<and> \<bar>Math_cos m ?a - cos ?a\<bar> \<le> 2 powr (- 52)
        \<and> \<bar>Math_sin m ?a - sin ?a\<bar> \<le> 2 powr (- 52) \<longrightarrow>
        \<bar>fst (clampToRadius m maxR dx dy) - maxR * cos ?a\<bar> \<le> clampTolerance maxR
      \<and> \<bar>snd (clampToRadius m maxR dx dy) - maxR * sin ?a\<bar> \<le> clampTolerance maxR
      \<and> \<bar>sqrt (fst (clampToRadius m maxR dx dy) * fst (clampToRadius m maxR dx dy)
               + snd (clampToRadius m maxR dx dy) * snd (clampToRadius m maxR dx dy))
           - \<bar>maxR\<bar>\<bar> \<le> 2 * clampTolerance maxR"
  proof (intro impI, elim conjE)
    assume d: "maxR < distance m dx dy"
      and c: "\<bar>Math_cos m ?a - cos ?a\<bar> \<le> 2 powr (- 52)"
      and s: "\<bar>Math_sin m ?a - sin ?a\<bar> \<le> 2 powr (- 52)"
    have eq: "clampToRadius m maxR dx dy = (fl (Math_cos m ?a * maxR), fl (Math_sin m ?a * maxR))"
      using d by (rule clampToRadius_outside)
    have x: "\<bar>fl (Math_cos m ?a * maxR) - maxR * cos ?a\<bar> \<le> clampTolerance maxR"
      unfolding clampTolerance_def by (rule rounded_product_close [OF c]) simp
    have y: "\<bar>fl (Math_sin m ?a * maxR) - maxR * sin ?a\<bar> \<le> clampTolerance maxR"
      unfolding clampTolerance_def by (rule rounded_product_close [OF s]) simp
    from length_close [OF x y] x y
    show "\<bar>fst (clampToRadius m maxR dx dy) - maxR * cos ?a\<bar> \<le> clampTolerance maxR
      \<and> \<bar>snd (clampToRadius m maxR dx dy) - maxR * sin ?a\<bar> \<le> clampTolerance maxR
      \<and> \<bar>sqrt (fst (clampToRadius m maxR dx dy) * fst (clampToRadius m maxR dx dy)
               + snd (clampToRadius m maxR dx dy) * snd (clampToRadius m maxR dx dy))
           - \<bar>maxR\<bar>\<bar> \<le> 2 * clampTolerance maxR"
      by (simp only: eq fst_conv snd_conv simp_thms)
  qed
  have k: "knob (handleJoystickMove m w now x y s)
       = clampToRadius m (maxRadius s) (fl (x - fst (joystickCenter s)))
           (fl (y - snd (joystickCenter s)))"
    by (simp add: handleJoystickMove_def Let_def sendCommandThrottled_knob)
  from i o t k show ?thesis by blast
qed

theorem clamp_to_max_radius_witness:
  "80 < distance engineMath 100 0
   \<and> Math_atan2 engineMath 0 100 = 0
   \<and> \<bar>Math_cos engineMath 0 - cos 0\<bar> \<le> 2 powr (- 52)
   \<and> \<bar>Math_sin engineMath 0 - sin 0\<bar> \<le> 2 powr (- 52)
   \<and> clampToRadius engineMath 80 100 0 = (80, 0)
   \<and> \<bar>sqrt (fst (clampToRadius engineMath 80 100 0) * fst (clampToRadius engineMath 80 100 0)
            + snd (clampToRadius engineMath 80 100 0) * snd (clampToRadius engineMath 80 100 0))
        - \<bar>80\<bar>\<bar> \<le> 2 * clampTolerance 80
   \<and> distance engineMath 0 (- 60) \<le> 80
   \<and> clampToRadius engineMath 80 0 (- 60) = (0, - 60)
   \<and> 100 < distance engineMath 100 100
   \<and> clampToRadius engineMath 100 100 100
       = (621977702395095 / 2 ^ 43, 4975821619160759 / 2 ^ 46)
   \<and> \<bar>sqrt (621977702395095 / 2 ^ 43 * (621977702395095 / 2 ^ 43)
            + 4975821619160759 / 2 ^ 46 * (4975821619160759 / 2 ^ 46))
        - \<bar>100\<bar>\<bar> \<le> 2 * clampTolerance 100"
proof -
  have d: "80 < distance engineMath 100 0"
    by (simp add: distance_def engineMath_def fl_values fl_zero sqrt_10000)
  have a: "Math_atan2 engineMath 0 100 = 0"
    by (simp add: engineMath_def atan2_def fl_zero)
  have c: "Math_cos engineMath 0 = 1" "Math_sin engineMath 0 = 0"
    by (simp_all add: engineMath_def fl_values fl_zero)
  have ac: "\<bar>Math_cos engineMath 0 - cos 0\<bar> \<le> 2 powr (- 52)"
           "\<bar>Math_sin engineMath 0 - sin 0\<bar> \<le> 2 powr (- 52)"
    by (simp_all add: c)
  have i: "distance engineMath 0 (- 60) \<le> 80"
    by (simp add: distance_def engineMath_def fl_values fl_zero sqrt_3600)
  note t = clamp_to_max_radius [where m = engineMath and maxR = 80 and dx = 100 and dy = 0]
  from t d have "clampToRadius engineMath 80 100 0
          = (fl (Math_cos engineMath (Math_atan2 engineMath 0 100) * 80),
             fl (Math_sin engineMath (Math_atan2 engineMath 0 100) * 80))" by blast
  then have e: "clampToRadius engineMath 80 100 0 = (80, 0)"
    by (simp add: a c fl_values fl_zero)
  have ac': "\<bar>Math_cos engineMath (Math_atan2 engineMath 0 100)
                - cos (Math_atan2 engineMath 0 100)\<bar> \<le> 2 powr (- 52)"
            "\<bar>Math_sin engineMath (Math_atan2 engineMath 0 100)
                - sin (Math_atan2 engineMath 0 100)\<bar> \<le> 2 powr (- 52)"
    using ac by (simp_all only: a)
  from t d ac' have l: "\<bar>sqrt (fst (clampToRadius engineMath 80 100 0) * fst (clampToRadius engineMath 80 100 0)
            + snd (clampToRadius engineMath 80 100 0) * snd (clampToRadius engineMath 80 100 0))
        - \<bar>80\<bar>\<bar> \<le> 2 * clampTolerance 80"
    by blast
  from clamp_to_max_radius [where m = engineMath and maxR = 80 and dx = 0 and dy = "- 60"] i
  have p: "clampToRadius engineMath 80 0 (- 60) = (0, - 60)" by blast
  have d': "100 < distance engineMath 100 100" by (simp add: diagonal_distance)
  from clamp_to_max_radius [where m = engineMath and maxR = 100 and dx = 100 and dy = 100]
    d' engineMath_accurate
  have "\<bar>sqrt (fst (clampToRadius engineMath 100 100 100) * fst (clampToRadius engineMath 100 100 100)
            + snd (clampToRadius engineMath 100 100 100) * snd (clampToRadius engineMath 100 100 100))
        - \<bar>100\<bar>\<bar> \<le> 2 * clampTolerance 100"
    by blast
  then have l': "\<bar>sqrt (621977702395095 / 2 ^ 43 * (621977702395095 / 2 ^ 43)
            + 4975821619160759 / 2 ^ 46 * (4975821619160759 / 2 ^ 46))
        - \<bar>100\<bar>\<bar> \<le> 2 * clampTolerance 100"
    by (simp only: diagonal_clamped fst_conv snd_conv)
  from d a ac e l i p d' diagonal_clamped l' show ?thesis by blast
qed

end
